theory Spec2Isabelle
  imports Main "HOL-Library.Word"
begin

section \<open>The data the generator reads\<close>

text \<open>
  cvgen.cpp reads parsed ontologies and writes cv.hpp and cv.cpp. \<open>size_t\<close> is the
  64-bit unsigned type, whose arithmetic wraps.
\<close>

type_synonym size_t = "64 word"

text \<open>
  Modelled from the spec: the structs \<open>Term\<close> and \<open>OBO\<close> of obo.hpp, which cvgen.cpp
  includes and which is not among the sources. A term has the prefix of its namespace,
  its local id (\<open>Term::id_type\<close>, an unsigned integer, here a \<open>nat\<close>), its name, its
  definition, the local ids of its is-a and part-of parents, and its exact synonyms; a
  file has its name, its header lines, its prefix and its terms, in the order of the
  file. The fields are the ones that cvgen.cpp reads.
\<close>

record Term =
  Term_prefix :: string
  Term_id :: nat
  Term_name :: string
  Term_def :: string
  Term_parentsIsA :: "nat list"
  Term_parentsPartOf :: "nat list"
  Term_exactSynonyms :: "string list"

record OBO =
  OBO_filename :: string
  OBO_header :: "string list"
  OBO_prefix :: string
  OBO_terms :: "Term list"

section \<open>Identifier allocation\<close>

text \<open>\<open>const size_t enumBlockSize_ = 100000000;\<close>\<close>

definition enumBlockSize :: size_t where
  "enumBlockSize = 100000000"

text \<open>\<open>enumValue(term, index)\<close>: \<open>term.id + (enumBlockSize_ * index)\<close>, in \<open>size_t\<close>.\<close>

definition enumValue :: "Term \<Rightarrow> size_t \<Rightarrow> size_t" where
  "enumValue term index = of_nat (Term_id term) + (enumBlockSize * index)"

section \<open>Enumerator names\<close>

text \<open>\<open>isalnum\<close>, \<open>isspace\<close> and \<open>isdigit\<close> of the C locale.\<close>

definition isalnum :: "char \<Rightarrow> bool" where
  "isalnum a = (let n = (of_char a :: nat) in
     (48 \<le> n \<and> n \<le> 57) \<or> (65 \<le> n \<and> n \<le> 90) \<or> (97 \<le> n \<and> n \<le> 122))"

definition isspace :: "char \<Rightarrow> bool" where
  "isspace a = (let n = (of_char a :: nat) in n = 32 \<or> (9 \<le> n \<and> n \<le> 13))"

definition isdigit :: "char \<Rightarrow> bool" where
  "isdigit a = (let n = (of_char a :: nat) in 48 \<le> n \<and> n \<le> 57)"

text \<open>\<open>toAllowableChar(a)\<close>: \<open>isalnum(a) ? a : '_'\<close>.\<close>

definition toAllowableChar :: "char \<Rightarrow> char" where
  "toAllowableChar a = (if isalnum a then a else CHR ''_'')"

text \<open>\<open>enumName(prefix, name)\<close> and \<open>enumName(term)\<close>.\<close>

definition enumName :: "string \<Rightarrow> string \<Rightarrow> string" where
  "enumName prefix name = prefix @ ''_'' @ map toAllowableChar name"

definition enumName_term :: "Term \<Rightarrow> string" where
  "enumName_term term = enumName (Term_prefix term) (Term_name term)"

section \<open>The generated header: the enumeration\<close>

text \<open>
  The generated files are modelled by their data: the enumerators of \<open>enum CVID\<close> in
  cv.hpp and the rows of the static tables in cv.cpp, each row as the generator prints
  it (enumerators by name, strings as the text between the quotes of the literal).
  An enumerator is printed with a number (\<open>CVID_Unknown = -1\<close>, a term with its
  \<open>enumValue\<close>) or with the name of another enumerator (a synonym with its term's).
\<close>

datatype enum_init = Int_init int | Name_init string

text \<open>
  The body of the two loops of \<open>writeHpp\<close>: the enumerator of a term, then, when the
  prefix of the file is MS, one enumerator per exact synonym, equal to the term's.
\<close>

definition writeHpp_term :: "OBO \<Rightarrow> size_t \<Rightarrow> Term \<Rightarrow> (string \<times> enum_init) list" where
  "writeHpp_term obo index it =
     (enumName_term it, Int_init (uint (enumValue it index)))
     # (if OBO_prefix obo = ''MS''
        then map (\<lambda>syn. (enumName (Term_prefix it) syn, Name_init (enumName_term it)))
               (Term_exactSynonyms it)
        else [])"

definition writeHpp_obo :: "nat \<times> OBO \<Rightarrow> (string \<times> enum_init) list" where
  "writeHpp_obo p = concat (map (writeHpp_term (snd p) (of_nat (fst p))) (OBO_terms (snd p)))"

definition writeHpp_enum :: "OBO list \<Rightarrow> (string \<times> enum_init) list" where
  "writeHpp_enum obos =
     (''CVID_Unknown'', Int_init (- 1)) # concat (map writeHpp_obo (enumerate 0 obos))"

section \<open>Escaping\<close>

abbreviation bslash :: char where
  "bslash \<equiv> CHR 0x5C"

text \<open>
  \<open>bal::replace_all(input, search, format)\<close>: every occurrence of \<open>search\<close>, found
  from the left and not overlapping an earlier one, is replaced by \<open>format\<close>.
\<close>

function replace_all :: "string \<Rightarrow> string \<Rightarrow> string \<Rightarrow> string" where
  "replace_all [] search format = []"
| "replace_all (c # cs) search format =
     (if search \<noteq> [] \<and> take (length search) (c # cs) = search
      then format @ replace_all (drop (length search) (c # cs)) search format
      else c # replace_all cs search format)"
  by pat_completeness auto
termination
  by (relation "measure (\<lambda>(input, search, format). length input)") auto

text \<open>\<open>escape_copy\<close>: the nine replacements, in the order of the source.\<close>

definition escape_copy :: "string \<Rightarrow> string" where
  "escape_copy str =
     (let copy = str;
          copy = replace_all copy [bslash, CHR ''!''] [bslash, bslash, CHR ''!''];
          copy = replace_all copy [bslash, CHR '':''] [bslash, bslash, CHR '':''];
          copy = replace_all copy [bslash, CHR '',''] [bslash, bslash, CHR '',''];
          copy = replace_all copy [bslash, CHR ''(''] [bslash, bslash, CHR ''(''];
          copy = replace_all copy [bslash, CHR '')''] [bslash, bslash, CHR '')''];
          copy = replace_all copy [bslash, CHR ''[''] [bslash, bslash, CHR ''[''];
          copy = replace_all copy [bslash, CHR '']''] [bslash, bslash, CHR '']''];
          copy = replace_all copy [bslash, CHR ''{''] [bslash, bslash, CHR ''{''];
          copy = replace_all copy [bslash, CHR ''}''] [bslash, bslash, CHR ''}'']
      in copy)"

section \<open>The generated tables\<close>

text \<open>Decimal output of an unsigned integer, and \<open>setw(7) << setfill('0')\<close>.\<close>

fun string_of_nat :: "nat \<Rightarrow> string" where
  "string_of_nat n =
     (if n < 10 then [''0123456789'' ! n]
      else string_of_nat (n div 10) @ [''0123456789'' ! (n mod 10)])"

definition setw7_fill0 :: "string \<Rightarrow> string" where
  "setw7_fill0 s = replicate (7 - length s) (CHR ''0'') @ s"

text \<open>A row of \<open>termInfos_\<close> as printed: enumerator, id, name and definition.\<close>

record TermInfo_row =
  row_cvid :: string
  row_id :: string
  row_name :: string
  row_def :: string

definition writeCpp_termInfo :: "Term \<Rightarrow> TermInfo_row" where
  "writeCpp_termInfo it =
     \<lparr>row_cvid = enumName_term it,
      row_id = Term_prefix it @ '':'' @ setw7_fill0 (string_of_nat (Term_id it)),
      row_name = escape_copy (Term_name it),
      row_def = escape_copy (Term_def it)\<rparr>"

definition writeCpp_termInfos :: "OBO list \<Rightarrow> TermInfo_row list" where
  "writeCpp_termInfos obos =
     \<lparr>row_cvid = ''CVID_Unknown'', row_id = ''??:0000000'',
      row_name = ''CVID_Unknown'', row_def = ''CVID_Unknown''\<rparr>
     # concat (map (\<lambda>obo. map writeCpp_termInfo (OBO_terms obo)) obos)"

text \<open>
  \<open>termMaps[obo-obos.begin()][it->id] = &*it\<close>: for each file, the map from a local id
  to the last term that has it.
\<close>

definition termMap :: "OBO \<Rightarrow> (nat \<rightharpoonup> Term)" where
  "termMap obo = fold (\<lambda>it m. m(Term_id it \<mapsto> it)) (OBO_terms obo) Map.empty"

text \<open>
  A row of \<open>relationsIsA_\<close> or \<open>relationsPartOf_\<close>: the enumerator of the term and the
  enumerator of the parent found in the term map. A parent id that is not in the map is
  a null pointer there, and reading through it ends the run: \<open>None\<close>.
\<close>

definition writeCpp_relation :: "OBO \<Rightarrow> Term \<Rightarrow> nat \<Rightarrow> (string \<times> string) option" where
  "writeCpp_relation obo it jt =
     (case termMap obo jt of
        None \<Rightarrow> None
      | Some parent \<Rightarrow> Some (enumName_term it, enumName_term parent))"

definition writeCpp_relations :: "(Term \<Rightarrow> nat list) \<Rightarrow> OBO list \<Rightarrow> (string \<times> string) list option" where
  "writeCpp_relations parents obos =
     those (concat (map (\<lambda>obo. concat (map (\<lambda>it. map (writeCpp_relation obo it) (parents it))
                                         (OBO_terms obo))) obos))"

text \<open>The rows of \<open>relationsExactSynonym_\<close>: every exact synonym of every term of every file.\<close>

definition writeCpp_synonyms :: "OBO list \<Rightarrow> (string \<times> string) list" where
  "writeCpp_synonyms obos =
     (''CVID_Unknown'', ''Unknown'')
     # concat (map (\<lambda>obo. concat (map (\<lambda>it. map (\<lambda>jt. (enumName_term it, jt)) (Term_exactSynonyms it))
                                      (OBO_terms obo))) obos)"

section \<open>Version of a file, from its header\<close>

text \<open>
  \<open>regex_match(line, what, ".*?[^-]version: (\\S+)")\<close> matches the whole line: the line
  ends with \<open>version: \<close> and a non-empty run without white space, and the character in front of
  \<open>version: \<close> exists and is not a hyphen. The result is the run, \<open>what[1]\<close>.
\<close>

definition regex_match_version :: "string \<Rightarrow> string option" where
  "regex_match_version line =
     (let what1 = rev (takeWhile (\<lambda>c. \<not> isspace c) (rev line));
          front = take (length line - length what1) line
      in if what1 \<noteq> [] \<and> 10 \<le> length front
            \<and> drop (length front - 9) front = ''version: ''
            \<and> front ! (length front - 10) \<noteq> CHR ''-''
         then Some what1 else None)"

text \<open>
  \<open>regex_match(line, what, "\\s*date: (\\S+).*")\<close>: after the leading white space comes
  \<open>date: \<close> and a non-empty run without white space, the longest one, which is \<open>what[1]\<close>.
\<close>

definition regex_match_date :: "string \<Rightarrow> string option" where
  "regex_match_date line =
     (let rest = dropWhile isspace line;
          what1 = takeWhile (\<lambda>c. \<not> isspace c) (drop 6 rest)
      in if take 6 rest = ''date: '' \<and> what1 \<noteq> [] then Some what1 else None)"

text \<open>
  The loop over the header lines, with the variable \<open>version\<close>: a line that matches the
  version pattern sets it and leaves the loop; while it is empty, a line that matches the
  date pattern sets it.
\<close>

fun version_loop :: "string list \<Rightarrow> string \<Rightarrow> string" where
  "version_loop [] version = version"
| "version_loop (line # header) version =
     (case regex_match_version line of
        Some what1 \<Rightarrow> what1
      | None \<Rightarrow>
          (if version = []
           then (case regex_match_date line of
                   Some what1 \<Rightarrow> version_loop header what1
                 | None \<Rightarrow> version_loop header version)
           else version_loop header version))"

definition header_version :: "string list \<Rightarrow> string" where
  "header_version header =
     (let version = version_loop header [] in if version = [] then ''unknown'' else version)"

text \<open>The assignments to \<open>cvMap_\<close> printed for a file: its prefix and its version.\<close>

definition writeCpp_cvMap :: "OBO list \<Rightarrow> (string \<times> string) list" where
  "writeCpp_cvMap obos = map (\<lambda>obo. (OBO_prefix obo, header_version (OBO_header obo))) obos"

definition writeCpp_oboPrefixes :: "OBO list \<Rightarrow> string list" where
  "writeCpp_oboPrefixes obos = map OBO_prefix obos"

section \<open>The generated files and their compilation\<close>

text \<open>
  \<open>generateFiles\<close>: \<open>writeHpp\<close>, then \<open>writeCpp\<close>. The result is \<open>None\<close> when the
  run ends in the relation tables on a parent id that no term of the file has.
\<close>

record artifact =
  art_enum :: "(string \<times> enum_init) list"
  art_termInfos :: "TermInfo_row list"
  art_relationsIsA :: "(string \<times> string) list"
  art_relationsPartOf :: "(string \<times> string) list"
  art_relationsExactSynonym :: "(string \<times> string) list"
  art_cvMap :: "(string \<times> string) list"
  art_oboPrefixes :: "string list"

definition generateFiles :: "OBO list \<Rightarrow> artifact option" where
  "generateFiles obos =
     (case writeCpp_relations Term_parentsIsA obos of
        None \<Rightarrow> None
      | Some isA \<Rightarrow>
          (case writeCpp_relations Term_parentsPartOf obos of
             None \<Rightarrow> None
           | Some partOf \<Rightarrow>
               Some \<lparr>art_enum = writeHpp_enum obos,
                     art_termInfos = writeCpp_termInfos obos,
                     art_relationsIsA = isA,
                     art_relationsPartOf = partOf,
                     art_relationsExactSynonym = writeCpp_synonyms obos,
                     art_cvMap = writeCpp_cvMap obos,
                     art_oboPrefixes = writeCpp_oboPrefixes obos\<rparr>))"

text \<open>
  The generated code, as it runs. \<open>CVID\<close> is the enumeration, a number; the static
  tables hold numbers and strings. The tables \<open>termInfos_\<close>, \<open>relationsIsA_\<close>,
  \<open>relationsPartOf_\<close>, \<open>relationsExactSynonym_\<close> and \<open>oboPrefixes_\<close> have the suffix
  \<open>tab\<close> here, and \<open>cvMap_assignments\<close> are the prefix and the version in the
  assignments to \<open>cvMap_\<close> that the generator prints into \<open>initialize\<close>.
\<close>

type_synonym CVID = int

definition CVID_Unknown :: CVID where
  "CVID_Unknown = - 1"

record TermInfo =
  TermInfo_cvid :: CVID
  TermInfo_id :: string
  TermInfo_name :: string
  TermInfo_def :: string

record tables =
  termInfos_tab :: "TermInfo list"
  relationsIsA_tab :: "(CVID \<times> CVID) list"
  relationsPartOf_tab :: "(CVID \<times> CVID) list"
  relationsExactSynonym_tab :: "(CVID \<times> string) list"
  cvMap_assignments :: "(string \<times> string) list"
  oboPrefixes_tab :: "string list"

text \<open>
  The C++ compiler gives every enumerator its number, in the order of the declarations;
  a name declared twice, or a name used before its declaration, is an error.
\<close>

fun declare_enum :: "(string \<times> enum_init) list \<Rightarrow> (string \<rightharpoonup> int) \<Rightarrow> (string \<rightharpoonup> int) option" where
  "declare_enum [] env = Some env"
| "declare_enum ((n, init) # es) env =
     (if env n \<noteq> None then None
      else (case init of
              Int_init v \<Rightarrow> declare_enum es (env(n \<mapsto> v))
            | Name_init m \<Rightarrow>
                (case env m of
                   None \<Rightarrow> None
                 | Some v \<Rightarrow> declare_enum es (env(n \<mapsto> v)))))"

definition compile_termInfo :: "(string \<Rightarrow> string) \<Rightarrow> (string \<rightharpoonup> int) \<Rightarrow> TermInfo_row \<Rightarrow> TermInfo option" where
  "compile_termInfo lit env r =
     map_option (\<lambda>v. \<lparr>TermInfo_cvid = v, TermInfo_id = lit (row_id r),
                      TermInfo_name = lit (row_name r), TermInfo_def = lit (row_def r)\<rparr>)
       (env (row_cvid r))"

definition compile_pair :: "(string \<rightharpoonup> int) \<Rightarrow> string \<times> string \<Rightarrow> (CVID \<times> CVID) option" where
  "compile_pair env p =
     (case env (fst p) of
        None \<Rightarrow> None
      | Some a \<Rightarrow> map_option (\<lambda>b. (a, b)) (env (snd p)))"

definition compile_synonym :: "(string \<Rightarrow> string) \<Rightarrow> (string \<rightharpoonup> int) \<Rightarrow> string \<times> string \<Rightarrow> (CVID \<times> string) option" where
  "compile_synonym lit env p = map_option (\<lambda>a. (a, lit (snd p))) (env (fst p))"

text \<open>
  The tables of the compiled files. \<open>lit\<close> is the string that the compiler reads from
  the text of a string literal; \<open>None\<close> is a compilation error.
\<close>

definition compile :: "(string \<Rightarrow> string) \<Rightarrow> artifact \<Rightarrow> tables option" where
  "compile lit a =
     (case declare_enum (art_enum a) Map.empty of
        None \<Rightarrow> None
      | Some env \<Rightarrow>
          (case those (map (compile_termInfo lit env) (art_termInfos a)) of
             None \<Rightarrow> None
           | Some infos \<Rightarrow>
               (case those (map (compile_pair env) (art_relationsIsA a)) of
                  None \<Rightarrow> None
                | Some isA \<Rightarrow>
                    (case those (map (compile_pair env) (art_relationsPartOf a)) of
                       None \<Rightarrow> None
                     | Some partOf \<Rightarrow>
                         (case those (map (compile_synonym lit env) (art_relationsExactSynonym a)) of
                            None \<Rightarrow> None
                          | Some syns \<Rightarrow>
                              Some \<lparr>termInfos_tab = infos,
                                    relationsIsA_tab = isA,
                                    relationsPartOf_tab = partOf,
                                    relationsExactSynonym_tab = syns,
                                    cvMap_assignments = map (\<lambda>p. (lit (fst p), lit (snd p))) (art_cvMap a),
                                    oboPrefixes_tab = map lit (art_oboPrefixes a)\<rparr>)))))"

section \<open>The generated accessors\<close>

record CV =
  CV_id :: string
  CV_URI :: string
  CV_fullName :: string
  CV_version :: string

record CVTermInfo =
  CVTermInfo_cvid :: CVID
  CVTermInfo_id :: string
  CVTermInfo_name :: string
  CVTermInfo_def :: string
  CVTermInfo_parentsIsA :: "CVID list"
  CVTermInfo_parentsPartOf :: "CVID list"
  CVTermInfo_exactSynonyms :: "string list"

text \<open>The default constructors: \<open>CVTermInfo() : cvid((CVID)-1) {}\<close>, and a \<open>CV\<close> of empty strings.\<close>

definition default_CVTermInfo :: CVTermInfo where
  "default_CVTermInfo =
     \<lparr>CVTermInfo_cvid = - 1, CVTermInfo_id = [], CVTermInfo_name = [], CVTermInfo_def = [],
      CVTermInfo_parentsIsA = [], CVTermInfo_parentsPartOf = [], CVTermInfo_exactSynonyms = []\<rparr>"

definition default_CV :: CV where
  "default_CV = \<lparr>CV_id = [], CV_URI = [], CV_fullName = [], CV_version = []\<rparr>"

text \<open>
  The variables of the generated file: \<open>initialized_\<close>, \<open>infoMap_\<close>, \<open>cvMap_\<close> and
  \<open>cvids_\<close>. A name cannot end with an underscore here, so they are \<open>initialized_flag\<close>,
  \<open>infoMap_var\<close>, \<open>cvMap_var\<close> and \<open>cvids_var\<close>.
\<close>

record state =
  initialized_flag :: bool
  infoMap_var :: "CVID \<rightharpoonup> CVTermInfo"
  cvMap_var :: "string \<rightharpoonup> CV"
  cvids_var :: "CVID list"

definition start :: state where
  "start = \<lparr>initialized_flag = False, infoMap_var = Map.empty, cvMap_var = Map.empty, cvids_var = []\<rparr>"

text \<open>
  \<open>std::map::operator[]\<close>: the element under the key; when there is none, a
  default-constructed element is inserted under the key first.
\<close>

definition infoMap_index :: "state \<Rightarrow> CVID \<Rightarrow> CVTermInfo \<times> state" where
  "infoMap_index s k =
     (case infoMap_var s k of
        Some v \<Rightarrow> (v, s)
      | None \<Rightarrow> (default_CVTermInfo, s\<lparr>infoMap_var := (infoMap_var s)(k \<mapsto> default_CVTermInfo)\<rparr>))"

definition cvMap_index :: "state \<Rightarrow> string \<Rightarrow> CV \<times> state" where
  "cvMap_index s k =
     (case cvMap_var s k of
        Some v \<Rightarrow> (v, s)
      | None \<Rightarrow> (default_CV, s\<lparr>cvMap_var := (cvMap_var s)(k \<mapsto> default_CV)\<rparr>))"

text \<open>\<open>infoMap_[k].field...\<close> and \<open>cvMap_[k].field = ...\<close>: a change of the element under the key.\<close>

definition infoMap_modify :: "CVID \<Rightarrow> (CVTermInfo \<Rightarrow> CVTermInfo) \<Rightarrow> state \<Rightarrow> state" where
  "infoMap_modify k f s = (let (v, s) = infoMap_index s k in s\<lparr>infoMap_var := (infoMap_var s)(k \<mapsto> f v)\<rparr>)"

definition cvMap_modify :: "string \<Rightarrow> (CV \<Rightarrow> CV) \<Rightarrow> state \<Rightarrow> state" where
  "cvMap_modify k f s = (let (v, s) = cvMap_index s k in s\<lparr>cvMap_var := (cvMap_var s)(k \<mapsto> f v)\<rparr>)"

text \<open>\<open>initialize()\<close>: the four loops over the tables, the assignments to \<open>cvMap_\<close>, the flag.\<close>

definition initialize_termInfo :: "TermInfo \<Rightarrow> state \<Rightarrow> state" where
  "initialize_termInfo it s =
     (let temp = \<lparr>CVTermInfo_cvid = TermInfo_cvid it, CVTermInfo_id = TermInfo_id it,
                  CVTermInfo_name = TermInfo_name it, CVTermInfo_def = TermInfo_def it,
                  CVTermInfo_parentsIsA = [], CVTermInfo_parentsPartOf = [],
                  CVTermInfo_exactSynonyms = []\<rparr>
      in s\<lparr>infoMap_var := (infoMap_var s)(CVTermInfo_cvid temp \<mapsto> temp),
           cvids_var := cvids_var s @ [TermInfo_cvid it]\<rparr>)"

definition initialize_isA :: "CVID \<times> CVID \<Rightarrow> state \<Rightarrow> state" where
  "initialize_isA it = infoMap_modify (fst it)
     (\<lambda>info. info\<lparr>CVTermInfo_parentsIsA := CVTermInfo_parentsIsA info @ [snd it]\<rparr>)"

definition initialize_partOf :: "CVID \<times> CVID \<Rightarrow> state \<Rightarrow> state" where
  "initialize_partOf it = infoMap_modify (fst it)
     (\<lambda>info. info\<lparr>CVTermInfo_parentsPartOf := CVTermInfo_parentsPartOf info @ [snd it]\<rparr>)"

definition initialize_synonym :: "CVID \<times> string \<Rightarrow> state \<Rightarrow> state" where
  "initialize_synonym it = infoMap_modify (fst it)
     (\<lambda>info. info\<lparr>CVTermInfo_exactSynonyms := CVTermInfo_exactSynonyms info @ [snd it]\<rparr>)"

definition initialize_cv :: "string \<times> string \<Rightarrow> state \<Rightarrow> state" where
  "initialize_cv p s =
     cvMap_modify (fst p) (\<lambda>c. c\<lparr>CV_version := snd p\<rparr>)
       (cvMap_modify (fst p) (\<lambda>c. c\<lparr>CV_id := fst p\<rparr>) s)"

definition initialize :: "tables \<Rightarrow> state \<Rightarrow> state" where
  "initialize T s =
     (let s = fold initialize_termInfo (termInfos_tab T) s;
          s = fold initialize_isA (relationsIsA_tab T) s;
          s = fold initialize_partOf (relationsPartOf_tab T) s;
          s = fold initialize_synonym (relationsExactSynonym_tab T) s;
          s = cvMap_modify ''MS''
                (\<lambda>c. c\<lparr>CV_fullName := ''Proteomics Standards Initiative Mass Spectrometry Ontology''\<rparr>) s;
          s = cvMap_modify ''MS''
                (\<lambda>c. c\<lparr>CV_URI := ''http://psidev.cvs.sourceforge.net/*checkout*/psidev/psi/psi-ms/mzML/controlledVocabulary/psi-ms.obo''\<rparr>) s;
          s = cvMap_modify ''UO'' (\<lambda>c. c\<lparr>CV_fullName := ''Unit Ontology''\<rparr>) s;
          s = cvMap_modify ''UO''
                (\<lambda>c. c\<lparr>CV_URI := ''http://obo.cvs.sourceforge.net/*checkout*/obo/obo/ontology/phenotype/unit.obo''\<rparr>) s;
          s = fold initialize_cv (cvMap_assignments T) s
      in s\<lparr>initialized_flag := True\<rparr>)"

text \<open>\<open>if (!initialized_) initialize();\<close>\<close>

definition ensure_initialized :: "tables \<Rightarrow> state \<Rightarrow> state" where
  "ensure_initialized T s = (if \<not> initialized_flag s then initialize T s else s)"

text \<open>\<open>cv(prefix)\<close>, \<open>cvTermInfo(cvid)\<close> and \<open>cvids()\<close>: the result and the state after the call.\<close>

definition cv :: "tables \<Rightarrow> state \<Rightarrow> string \<Rightarrow> CV \<times> state" where
  "cv T s prefix = cvMap_index (ensure_initialized T s) prefix"

definition cvTermInfo :: "tables \<Rightarrow> state \<Rightarrow> CVID \<Rightarrow> CVTermInfo \<times> state" where
  "cvTermInfo T s cvid = infoMap_index (ensure_initialized T s) cvid"

definition cvids :: "tables \<Rightarrow> state \<Rightarrow> CVID list \<times> state" where
  "cvids T s = (let s = ensure_initialized T s in (cvids_var s, s))"

subsection \<open>Lookup by accession string\<close>

datatype exception = Runtime_error string | Bad_lexical_cast

text \<open>\<open>str.c_str()\<close> read as a C string: the characters before the first zero.\<close>

definition c_str :: "string \<Rightarrow> string" where
  "c_str str = takeWhile (\<lambda>c. c \<noteq> CHR 0x00) str"

definition decimal :: "string \<Rightarrow> nat" where
  "decimal ds = foldl (\<lambda>a c. 10 * a + (of_char c - 48)) 0 ds"

text \<open>
  \<open>strtoul(nptr, &endptr, 10)\<close> of the C library, for an \<open>unsigned long\<close> with largest
  value \<open>ulong_max\<close>: white space (\<open>strtoul_sign\<close> is what follows it), an optional
  sign, decimal digits (\<open>strtoul_digits\<close>). The result is the
  value, the offset of \<open>endptr\<close> from \<open>nptr\<close>, and whether \<open>errno\<close> is set. Without a
  digit nothing is converted: the value is 0 and \<open>endptr\<close> is \<open>nptr\<close>. A number above
  \<open>ulong_max\<close> gives \<open>ulong_max\<close> and sets \<open>errno\<close>; a minus sign negates in
  \<open>unsigned long\<close>.
\<close>

definition strtoul_sign :: "string \<Rightarrow> string" where
  "strtoul_sign nptr = dropWhile isspace nptr"

definition strtoul_digits :: "string \<Rightarrow> string" where
  "strtoul_digits nptr =
     (let s = strtoul_sign nptr;
          s = (if s \<noteq> [] \<and> (hd s = CHR ''-'' \<or> hd s = CHR ''+'') then tl s else s)
      in takeWhile isdigit s)"

definition strtoul :: "nat \<Rightarrow> string \<Rightarrow> nat \<times> nat \<times> bool" where
  "strtoul ulong_max nptr =
     (let s = strtoul_sign nptr;
          neg = (s \<noteq> [] \<and> hd s = CHR ''-'');
          signed = (s \<noteq> [] \<and> (hd s = CHR ''-'' \<or> hd s = CHR ''+''));
          ds = strtoul_digits nptr;
          endptr = length nptr - length s + (if signed then 1 else 0) + length ds
      in if ds = [] then (0, 0, False)
         else if ulong_max < decimal ds then (ulong_max, endptr, True)
         else if neg then ((ulong_max + 1 - decimal ds) mod (ulong_max + 1), endptr, False)
         else (decimal ds, endptr, False))"

text \<open>\<open>stringToCVID(str)\<close>: the value as an \<open>unsigned int\<close> of 32 bits, or \<open>bad_lexical_cast\<close>.\<close>

definition stringToCVID :: "nat \<Rightarrow> string \<Rightarrow> exception + nat" where
  "stringToCVID ulong_max str =
     (let stringToConvert = c_str str;
          (converted, endOfConversion, errno) = strtoul ulong_max stringToConvert;
          val = converted mod 2 ^ 32
      in if (val = 0 \<and> endOfConversion = 0) \<or> errno then Inl Bad_lexical_cast else Inr val)"

text \<open>\<open>bal::split(tokens, id, bal::is_any_of(":"))\<close>: the pieces between the separators.\<close>

fun bal_split :: "(char \<Rightarrow> bool) \<Rightarrow> string \<Rightarrow> string list" where
  "bal_split sep [] = [[]]"
| "bal_split sep (c # cs) =
     (let tokens = bal_split sep cs
      in if sep c then [] # tokens else (c # hd tokens) # tl tokens)"

text \<open>
  \<open>find_if(oboPrefixes_, oboPrefixes_+oboPrefixesSize_, StringEquals(prefix.c_str()))\<close>,
  as the offset of the result from \<open>oboPrefixes_\<close>.
\<close>

definition find_if_StringEquals :: "string list \<Rightarrow> string \<Rightarrow> nat" where
  "find_if_StringEquals prefixes mine = length (takeWhile (\<lambda>yours. \<not> mine = yours) prefixes)"

text \<open>
  The conversion \<open>(CVID)\<close> of a \<open>size_t\<close>: the enumeration is held in four bytes, so
  the low 32 bits are kept and read as a signed number.
\<close>

definition to_CVID :: "size_t \<Rightarrow> CVID" where
  "to_CVID w = sint (ucast w :: 32 word)"

text \<open>
  \<open>cvTermInfo(id)\<close> for a string: the result, a record or an exception, and the state
  after the call. The sum is computed in \<open>size_t\<close> and converted to \<open>CVID\<close>.
\<close>

definition cvTermInfo_string :: "nat \<Rightarrow> tables \<Rightarrow> state \<Rightarrow> string \<Rightarrow> (exception + CVTermInfo) \<times> state" where
  "cvTermInfo_string ulong_max T s ident =
     (let s = ensure_initialized T s;
          cvid = CVID_Unknown;
          tokens = bal_split (\<lambda>c. c = CHR '':'') ident
      in if length tokens \<noteq> 2
         then (Inl (Runtime_error (''[cvinfo] Error splitting id '' @ [CHR 0x22] @ ident @ [CHR 0x22]
                      @ '' into prefix and numeric components'')), s)
         else
           (let prefix = tokens ! 0;
                cvidStr = tokens ! 1;
                it = find_if_StringEquals (oboPrefixes_tab T) (c_str prefix)
            in if it \<noteq> length (oboPrefixes_tab T)
               then (case stringToCVID ulong_max cvidStr of
                       Inl e \<Rightarrow> (Inl e, s)
                     | Inr n \<Rightarrow>
                         (let cvid = to_CVID (of_nat it * enumBlockSize + of_nat n);
                              (info, s) = infoMap_index s cvid
                          in (Inr info, s)))
               else (let (info, s) = infoMap_index s cvid in (Inr info, s))))"

subsection \<open>The is-a test\<close>

text \<open>
  \<open>cvIsA(child, parent)\<close> calls itself for the parents of the child, in their order, and
  nothing bounds the recursion. The first argument is the depth of calls that the stack
  allows; \<open>None\<close> is a call that needs more. The state is passed along, since every
  call of \<open>cvTermInfo\<close> may change it.
\<close>

fun cvIsA :: "nat \<Rightarrow> tables \<Rightarrow> state \<Rightarrow> CVID \<Rightarrow> CVID \<Rightarrow> (bool \<times> state) option"
  and cvIsA_loop :: "nat \<Rightarrow> tables \<Rightarrow> state \<Rightarrow> CVID list \<Rightarrow> CVID \<Rightarrow> (bool \<times> state) option" where
  "cvIsA 0 T s child parent = None"
| "cvIsA (Suc depth) T s child parent =
     (if child = parent then Some (True, s)
      else (let (info, s) = cvTermInfo T s child
            in cvIsA_loop depth T s (CVTermInfo_parentsIsA info) parent))"
| "cvIsA_loop depth T s [] parent = Some (False, s)"
| "cvIsA_loop depth T s (it # its) parent =
     (case cvIsA depth T s it parent of
        None \<Rightarrow> None
      | Some (r, s) \<Rightarrow> if r then Some (True, s) else cvIsA_loop depth T s its parent)"

text \<open>The result of a call alone.\<close>

definition cvIsA_result :: "nat \<Rightarrow> tables \<Rightarrow> state \<Rightarrow> CVID \<Rightarrow> CVID \<Rightarrow> bool option" where
  "cvIsA_result depth T s child parent = map_option fst (cvIsA depth T s child parent)"

section \<open>What the properties speak of\<close>

text \<open>The direct is-a parents of a code in a state: \<open>parentsIsA\<close> of its record, if it has one.\<close>

definition isa_parents :: "state \<Rightarrow> CVID \<Rightarrow> CVID list" where
  "isa_parents s c = (case infoMap_var s c of None \<Rightarrow> [] | Some info \<Rightarrow> CVTermInfo_parentsIsA info)"

text \<open>The codes that the tables name in a first column: the keys of \<open>infoMap_\<close> after \<open>initialize\<close>.\<close>

definition table_keys :: "tables \<Rightarrow> CVID set" where
  "table_keys T =
     TermInfo_cvid ` set (termInfos_tab T) \<union> fst ` set (relationsIsA_tab T)
     \<union> fst ` set (relationsPartOf_tab T) \<union> fst ` set (relationsExactSynonym_tab T)"

text \<open>
  A later state extends an earlier one: the flag and the list of codes are the same, every
  entry of the two maps is still there with its value, and an entry that is new is a
  default-constructed one.
\<close>

definition state_extends :: "state \<Rightarrow> state \<Rightarrow> bool" where
  "state_extends s s' =
     (initialized_flag s' = initialized_flag s \<and> cvids_var s' = cvids_var s
      \<and> (\<forall>k. infoMap_var s' k = infoMap_var s k
             \<or> (infoMap_var s k = None \<and> infoMap_var s' k = Some default_CVTermInfo))
      \<and> (\<forall>k. cvMap_var s' k = cvMap_var s k
             \<or> (cvMap_var s k = None \<and> cvMap_var s' k = Some default_CV)))"

text \<open>The is-a edges of a state: from a code to each of its direct is-a parents.\<close>

definition isa_edges :: "state \<Rightarrow> (CVID \<times> CVID) set" where
  "isa_edges s = {(c, q). q \<in> set (isa_parents s c)}"

text \<open>
  The global codes of the terms, one for each term, in the order of the files and, in a
  file, of its terms; synonyms are not terms and give no code.
\<close>

definition term_codes :: "OBO list \<Rightarrow> CVID list" where
  "term_codes obos =
     concat (map (\<lambda>p. map (\<lambda>it. uint (enumValue it (of_nat (fst p)))) (OBO_terms (snd p)))
               (enumerate 0 obos))"

text \<open>One of the nine replacements of \<open>escape_copy\<close>, for the character after the backslash.\<close>

definition double_bslash :: "char \<Rightarrow> string \<Rightarrow> string" where
  "double_bslash c s = replace_all s [bslash, c] [bslash, bslash, c]"

text \<open>
  Every direct is-a parent of every code has an entry in \<open>infoMap_\<close>: then a call of
  \<open>cvTermInfo\<close> for a parent finds its key.
\<close>

definition parents_closed :: "state \<Rightarrow> bool" where
  "parents_closed s = (\<forall>c. \<forall>q\<in>set (isa_parents s c). infoMap_var s q \<noteq> None)"

text \<open>An enumerator that stands for a synonym: it is set to the name of another enumerator.\<close>

definition is_alias :: "string \<times> enum_init \<Rightarrow> bool" where
  "is_alias e = (case snd e of Name_init m \<Rightarrow> True | Int_init v \<Rightarrow> False)"

text \<open>
  For a file, one enumerator for each exact synonym of each term, in the order of the terms
  and of their synonyms, set to the enumerator of the term; and one row of the table of
  synonyms for each of them.
\<close>

definition synonym_aliases :: "OBO \<Rightarrow> (string \<times> enum_init) list" where
  "synonym_aliases obo =
     [(enumName (Term_prefix it) syn, Name_init (enumName_term it)).
        it \<leftarrow> OBO_terms obo, syn \<leftarrow> Term_exactSynonyms it]"

definition synonym_rows :: "OBO \<Rightarrow> (string \<times> string) list" where
  "synonym_rows obo = [(enumName_term it, syn). it \<leftarrow> OBO_terms obo, syn \<leftarrow> Term_exactSynonyms it]"

text \<open>For a file and its position, one enumerator for each term, set to its global code.\<close>

definition term_enumerators :: "nat \<times> OBO \<Rightarrow> (string \<times> enum_init) list" where
  "term_enumerators p =
     [(enumName_term it, Int_init (uint (enumValue it (of_nat (fst p))))). it \<leftarrow> OBO_terms (snd p)]"

section \<open>Example inputs\<close>

text \<open>
  Two files: psi-ms.obo with the terms MS:0000001 and MS:0000002, the second a kind of
  the first, and unit.obo with the term UO:0000001. The term of each file has an exact
  synonym. \<open>example_tables\<close> are the tables compiled from the generated files.
\<close>

definition example_obos :: "OBO list" where
  "example_obos =
     [\<lparr>OBO_filename = ''psi-ms.obo'',
       OBO_header = [''format-version: 1.2'', ''date: 01:01:2020 00:00''],
       OBO_prefix = ''MS'',
       OBO_terms =
         [\<lparr>Term_prefix = ''MS'', Term_id = 1, Term_name = ''mass spectrum'', Term_def = ''d1'',
           Term_parentsIsA = [], Term_parentsPartOf = [], Term_exactSynonyms = [''ms x'']\<rparr>,
          \<lparr>Term_prefix = ''MS'', Term_id = 2, Term_name = ''b'', Term_def = [],
           Term_parentsIsA = [1], Term_parentsPartOf = [], Term_exactSynonyms = []\<rparr>]\<rparr>,
      \<lparr>OBO_filename = ''unit.obo'',
       OBO_header = [''remark: version: 2.0''],
       OBO_prefix = ''UO'',
       OBO_terms =
         [\<lparr>Term_prefix = ''UO'', Term_id = 1, Term_name = ''second'', Term_def = ''d1'',
           Term_parentsIsA = [], Term_parentsPartOf = [], Term_exactSynonyms = [''sec'']\<rparr>]\<rparr>]"

definition example_tables :: tables where
  "example_tables =
     \<lparr>termInfos_tab =
        [\<lparr>TermInfo_cvid = - 1, TermInfo_id = ''??:0000000'',
          TermInfo_name = ''CVID_Unknown'', TermInfo_def = ''CVID_Unknown''\<rparr>,
         \<lparr>TermInfo_cvid = 1, TermInfo_id = ''MS:0000001'',
          TermInfo_name = ''mass spectrum'', TermInfo_def = ''d1''\<rparr>,
         \<lparr>TermInfo_cvid = 2, TermInfo_id = ''MS:0000002'',
          TermInfo_name = ''b'', TermInfo_def = []\<rparr>,
         \<lparr>TermInfo_cvid = 100000001, TermInfo_id = ''UO:0000001'',
          TermInfo_name = ''second'', TermInfo_def = ''d1''\<rparr>],
      relationsIsA_tab = [(2, 1)],
      relationsPartOf_tab = [],
      relationsExactSynonym_tab = [(- 1, ''Unknown''), (1, ''ms x''), (100000001, ''sec'')],
      cvMap_assignments = [(''MS'', ''01:01:2020''), (''UO'', ''2.0'')],
      oboPrefixes_tab = [''MS'', ''UO'']\<rparr>"

text \<open>The files generated from \<open>example_obos\<close>, as the generator prints their data.\<close>

definition example_artifact :: artifact where
  "example_artifact =
     \<lparr>art_enum =
        [(''CVID_Unknown'', Int_init (- 1)), (''MS_mass_spectrum'', Int_init 1),
         (''MS_ms_x'', Name_init ''MS_mass_spectrum''), (''MS_b'', Int_init 2),
         (''UO_second'', Int_init 100000001)],
      art_termInfos =
        [\<lparr>row_cvid = ''CVID_Unknown'', row_id = ''??:0000000'',
          row_name = ''CVID_Unknown'', row_def = ''CVID_Unknown''\<rparr>,
         \<lparr>row_cvid = ''MS_mass_spectrum'', row_id = ''MS:0000001'',
          row_name = ''mass spectrum'', row_def = ''d1''\<rparr>,
         \<lparr>row_cvid = ''MS_b'', row_id = ''MS:0000002'', row_name = ''b'', row_def = []\<rparr>,
         \<lparr>row_cvid = ''UO_second'', row_id = ''UO:0000001'',
          row_name = ''second'', row_def = ''d1''\<rparr>],
      art_relationsIsA = [(''MS_b'', ''MS_mass_spectrum'')],
      art_relationsPartOf = [],
      art_relationsExactSynonym =
        [(''CVID_Unknown'', ''Unknown''), (''MS_mass_spectrum'', ''ms x''), (''UO_second'', ''sec'')],
      art_cvMap = [(''MS'', ''01:01:2020''), (''UO'', ''2.0'')],
      art_oboPrefixes = [''MS'', ''UO'']\<rparr>"

text \<open>Tables with a cycle: the code 1 is its own is-a parent, and 2 is its parent as well.\<close>

definition cyclic_tables :: tables where
  "cyclic_tables =
     \<lparr>termInfos_tab =
        [\<lparr>TermInfo_cvid = - 1, TermInfo_id = ''??:0000000'',
          TermInfo_name = ''CVID_Unknown'', TermInfo_def = ''CVID_Unknown''\<rparr>,
         \<lparr>TermInfo_cvid = 1, TermInfo_id = ''MS:0000001'',
          TermInfo_name = ''a'', TermInfo_def = []\<rparr>,
         \<lparr>TermInfo_cvid = 2, TermInfo_id = ''MS:0000002'',
          TermInfo_name = ''b'', TermInfo_def = []\<rparr>],
      relationsIsA_tab = [(1, 1), (1, 2)],
      relationsPartOf_tab = [],
      relationsExactSynonym_tab = [(- 1, ''Unknown'')],
      cvMap_assignments = [(''MS'', ''unknown'')],
      oboPrefixes_tab = [''MS'']\<rparr>"

section \<open>Properties of the allocation\<close>

lemma unat_enumValue:
  assumes "Term_id t < 100000000" and "n < 2 ^ 31"
  shows "unat (enumValue t (of_nat n)) = Term_id t + 100000000 * n"
proof -
  have b: "Term_id t + 100000000 * n < 2 ^ 64"
    using assms by simp
  have e: "enumValue t (of_nat n) = of_nat (Term_id t + 100000000 * n)"
    by (simp add: enumValue_def enumBlockSize_def)
  have "unat (of_nat (Term_id t + 100000000 * n) :: size_t) = (Term_id t + 100000000 * n) mod 2 ^ 64"
    by (simp only: unat_of_nat take_bit_eq_mod) simp
  then show ?thesis
    using b e by simp
qed

lemma unat_enumBlockSize: "unat enumBlockSize = 100000000"
  by (simp add: enumBlockSize_def)

text \<open>
  C1. The index passed to \<open>enumValue\<close> is a position in the vector of the input files,
  one per command-line argument, so it is below \<open>2 ^ 31\<close> (\<open>argc\<close> is an \<open>int\<close>).
  For local ids below the block size, two codes are equal exactly when the index and the
  local id are, and division and remainder by the block size give the index and the
  local id back.
\<close>

theorem enumValue_injective_roundtrip:
  assumes "Term_id a < unat enumBlockSize" and "Term_id b < unat enumBlockSize"
    and "n < 2 ^ 31" and "m < 2 ^ 31"
  shows "(enumValue a (of_nat n) = enumValue b (of_nat m) \<longleftrightarrow> n = m \<and> Term_id a = Term_id b)
    \<and> unat (enumValue a (of_nat n)) div unat enumBlockSize = n
    \<and> unat (enumValue a (of_nat n)) mod unat enumBlockSize = Term_id a"
proof -
  have a: "Term_id a < 100000000" and b: "Term_id b < 100000000"
    using assms(1,2) by (simp_all add: unat_enumBlockSize)
  have ua: "unat (enumValue a (of_nat n)) = Term_id a + 100000000 * n"
    using a assms(3) by (rule unat_enumValue)
  have ub: "unat (enumValue b (of_nat m)) = Term_id b + 100000000 * m"
    using b assms(4) by (rule unat_enumValue)
  have dv: "(Term_id a + 100000000 * n) div 100000000 = n"
    using a by simp
  have md: "(Term_id a + 100000000 * n) mod 100000000 = Term_id a"
    using a by simp
  have inj: "enumValue a (of_nat n) = enumValue b (of_nat m) \<longleftrightarrow> n = m \<and> Term_id a = Term_id b"
  proof
    assume "enumValue a (of_nat n) = enumValue b (of_nat m)"
    then have e: "Term_id a + 100000000 * n = Term_id b + 100000000 * m"
      using ua ub by simp
    have "(Term_id a + 100000000 * n) div 100000000 = (Term_id b + 100000000 * m) div 100000000"
      using e by simp
    then have nm: "n = m"
      using a b by simp
    with e show "n = m \<and> Term_id a = Term_id b"
      by simp
  next
    assume "n = m \<and> Term_id a = Term_id b"
    then show "enumValue a (of_nat n) = enumValue b (of_nat m)"
      by (simp add: enumValue_def)
  qed
  show ?thesis
    using inj ua dv md by (simp add: unat_enumBlockSize)
qed

theorem enumValue_injective_roundtrip_witness:
  "enumValue \<lparr>Term_prefix = ''MS'', Term_id = 1, Term_name = ''mass spectrum'', Term_def = [],
       Term_parentsIsA = [], Term_parentsPartOf = [], Term_exactSynonyms = []\<rparr> 0
     \<noteq> enumValue \<lparr>Term_prefix = ''UO'', Term_id = 1, Term_name = ''second'', Term_def = [],
       Term_parentsIsA = [], Term_parentsPartOf = [], Term_exactSynonyms = []\<rparr> 1
   \<and> unat (enumValue \<lparr>Term_prefix = ''UO'', Term_id = 1, Term_name = ''second'', Term_def = [],
       Term_parentsIsA = [], Term_parentsPartOf = [], Term_exactSynonyms = []\<rparr> 1)
       div unat enumBlockSize = 1
   \<and> unat (enumValue \<lparr>Term_prefix = ''UO'', Term_id = 1, Term_name = ''second'', Term_def = [],
       Term_parentsIsA = [], Term_parentsPartOf = [], Term_exactSynonyms = []\<rparr> 1)
       mod unat enumBlockSize = 1"
  using enumValue_injective_roundtrip
    [of "\<lparr>Term_prefix = ''MS'', Term_id = 1, Term_name = ''mass spectrum'', Term_def = [],
       Term_parentsIsA = [], Term_parentsPartOf = [], Term_exactSynonyms = []\<rparr>"
      "\<lparr>Term_prefix = ''UO'', Term_id = 1, Term_name = ''second'', Term_def = [],
       Term_parentsIsA = [], Term_parentsPartOf = [], Term_exactSynonyms = []\<rparr>" 0 1]
    enumValue_injective_roundtrip
    [of "\<lparr>Term_prefix = ''UO'', Term_id = 1, Term_name = ''second'', Term_def = [],
       Term_parentsIsA = [], Term_parentsPartOf = [], Term_exactSynonyms = []\<rparr>"
      "\<lparr>Term_prefix = ''UO'', Term_id = 1, Term_name = ''second'', Term_def = [],
       Term_parentsIsA = [], Term_parentsPartOf = [], Term_exactSynonyms = []\<rparr>" 1 1]
  by (simp add: unat_enumBlockSize)

section \<open>Properties of the generator\<close>

subsection \<open>Synonyms\<close>

lemma writeHpp_term_alias:
  "(n, Name_init m) \<in> set (writeHpp_term obo index it) \<longleftrightarrow>
     OBO_prefix obo = ''MS''
     \<and> (\<exists>syn\<in>set (Term_exactSynonyms it). n = enumName (Term_prefix it) syn \<and> m = enumName_term it)"
  by (auto simp: writeHpp_term_def)

lemma writeHpp_enum_alias:
  "(n, Name_init m) \<in> set (writeHpp_enum obos) \<longleftrightarrow>
     (\<exists>obo\<in>set obos. OBO_prefix obo = ''MS''
        \<and> (\<exists>it\<in>set (OBO_terms obo). \<exists>syn\<in>set (Term_exactSynonyms it).
              n = enumName (Term_prefix it) syn \<and> m = enumName_term it))"
proof -
  have "(n, Name_init m) \<in> set (writeHpp_enum obos) \<longleftrightarrow>
      (\<exists>p\<in>set (enumerate 0 obos). \<exists>it\<in>set (OBO_terms (snd p)).
         (n, Name_init m) \<in> set (writeHpp_term (snd p) (of_nat (fst p)) it))"
    by (auto simp: writeHpp_enum_def writeHpp_obo_def)
  also have "\<dots> \<longleftrightarrow> (\<exists>p\<in>set (enumerate 0 obos). OBO_prefix (snd p) = ''MS''
        \<and> (\<exists>it\<in>set (OBO_terms (snd p)). \<exists>syn\<in>set (Term_exactSynonyms it).
              n = enumName (Term_prefix it) syn \<and> m = enumName_term it))"
    by (auto simp: writeHpp_term_alias)
  also have "\<dots> \<longleftrightarrow> (\<exists>obo\<in>snd ` set (enumerate 0 obos). OBO_prefix obo = ''MS''
        \<and> (\<exists>it\<in>set (OBO_terms obo). \<exists>syn\<in>set (Term_exactSynonyms it).
              n = enumName (Term_prefix it) syn \<and> m = enumName_term it))"
    by (simp add: bex_simps)
  also have "snd ` set (enumerate 0 obos) = set obos"
    by (metis map_snd_enumerate set_map)
  finally show ?thesis .
qed

lemma writeCpp_synonyms_iff:
  "(c, syn) \<in> set (writeCpp_synonyms obos) \<longleftrightarrow>
     (c = ''CVID_Unknown'' \<and> syn = ''Unknown'')
     \<or> (\<exists>obo\<in>set obos. \<exists>it\<in>set (OBO_terms obo).
           syn \<in> set (Term_exactSynonyms it) \<and> c = enumName_term it)"
  by (auto simp: writeCpp_synonyms_def)

lemma example_enum:
  "writeHpp_enum example_obos =
     [(''CVID_Unknown'', Int_init (- 1)), (''MS_mass_spectrum'', Int_init 1),
      (''MS_ms_x'', Name_init ''MS_mass_spectrum''), (''MS_b'', Int_init 2),
      (''UO_second'', Int_init 100000001)]"
  by (simp add: example_obos_def writeHpp_enum_def writeHpp_obo_def writeHpp_term_def
      enumName_term_def enumName_def toAllowableChar_def isalnum_def enumValue_def
      enumBlockSize_def enumerate_eq_zip)

lemma example_synonyms:
  "writeCpp_synonyms example_obos =
     [(''CVID_Unknown'', ''Unknown''), (''MS_mass_spectrum'', ''ms x''), (''UO_second'', ''sec'')]"
  by (simp add: example_obos_def writeCpp_synonyms_def enumName_term_def enumName_def
      toAllowableChar_def isalnum_def)

subsection \<open>The version of a file\<close>

lemma regex_match_version_nonempty: "regex_match_version line = Some w \<Longrightarrow> w \<noteq> []"
  by (auto simp: regex_match_version_def Let_def split: if_splits)

lemma regex_match_date_nonempty: "regex_match_date line = Some w \<Longrightarrow> w \<noteq> []"
  by (auto simp: regex_match_date_def Let_def split: if_splits)

lemma version_loop_eq:
  "version_loop header version =
     (case List.map_filter regex_match_version header of
        w # _ \<Rightarrow> w
      | [] \<Rightarrow> (if version \<noteq> [] then version
               else (case List.map_filter regex_match_date header of d # _ \<Rightarrow> d | [] \<Rightarrow> [])))"
proof (induction header arbitrary: version)
  case Nil
  then show ?case by (simp add: List.map_filter_simps)
next
  case (Cons line header)
  show ?case
  proof (cases "regex_match_version line")
    case (Some w)
    then show ?thesis by (simp add: List.map_filter_simps)
  next
    case None
    note nv = None
    show ?thesis
    proof (cases "version = []")
      case False
      then show ?thesis using nv Cons.IH [of version]
        by (simp add: List.map_filter_simps split: list.splits)
    next
      case True
      show ?thesis
      proof (cases "regex_match_date line")
        case None
        then show ?thesis using nv True Cons.IH [of version]
          by (simp add: List.map_filter_simps split: list.splits)
      next
        case (Some d)
        then have "d \<noteq> []" by (rule regex_match_date_nonempty)
        then show ?thesis using nv True Some Cons.IH [of d]
          by (simp add: List.map_filter_simps split: list.splits)
      qed
    qed
  qed
qed

lemma map_filter_version_nonempty:
  assumes "List.map_filter regex_match_version header = w # ws"
  shows "w \<noteq> []"
proof -
  have "w \<in> set (List.map_filter regex_match_version header)"
    using assms by simp
  then obtain l where "regex_match_version l = Some w"
    by (auto simp: List.map_filter_def)
  then show ?thesis by (rule regex_match_version_nonempty)
qed

lemma map_filter_date_nonempty:
  assumes "List.map_filter regex_match_date header = w # ws"
  shows "w \<noteq> []"
proof -
  have "w \<in> set (List.map_filter regex_match_date header)"
    using assms by simp
  then obtain l where "regex_match_date l = Some w"
    by (auto simp: List.map_filter_def)
  then show ?thesis by (rule regex_match_date_nonempty)
qed

text \<open>
  The two matchers against the patterns they stand for. A line matches the version
  pattern with \<open>w\<close> as \<open>what[1]\<close> exactly when it is some text, a character that is not a
  hyphen, \<open>version: \<close>, and \<open>w\<close>, not empty and free of white space. A line matches the
  date pattern with \<open>w\<close> exactly when it is white space, \<open>date: \<close>, then \<open>w\<close>, not empty
  and free of white space, and a rest that does not go on with a character \<open>w\<close> could
  have taken.
\<close>

lemma isspace_space: "isspace CHR '' ''"
  by (simp add: isspace_def)

lemma takeWhile_rev_suffix:
  assumes "\<forall>x\<in>set w. P x" and "\<not> P c"
  shows "rev (takeWhile P (rev (pre @ c # w))) = w"
proof -
  have "takeWhile P (rev w @ c # rev pre) = rev w"
    using assms by (simp add: takeWhile_tail)
  then show ?thesis by simp
qed

lemma regex_match_version_iff:
  "regex_match_version line = Some w \<longleftrightarrow>
     (\<exists>pre c. line = pre @ [c] @ ''version: '' @ w \<and> c \<noteq> CHR ''-'' \<and> w \<noteq> []
        \<and> (\<forall>x\<in>set w. \<not> isspace x))"
proof
  assume "\<exists>pre c. line = pre @ [c] @ ''version: '' @ w \<and> c \<noteq> CHR ''-'' \<and> w \<noteq> []
        \<and> (\<forall>x\<in>set w. \<not> isspace x)"
  then obtain pre c where l: "line = pre @ [c] @ ''version: '' @ w" and c: "c \<noteq> CHR ''-''"
    and w: "w \<noteq> []" "\<forall>x\<in>set w. \<not> isspace x"
    by blast
  have l': "line = (pre @ [c] @ ''version:'') @ CHR '' '' # w"
    using l by simp
  have t: "rev (takeWhile (\<lambda>c. \<not> isspace c) (rev line)) = w"
    unfolding l' using w(2) isspace_space by (intro takeWhile_rev_suffix) auto
  have f: "take (length line - length w) line = pre @ [c] @ ''version: ''"
    using l by simp
  have n: "(pre @ [c] @ ''version: '') ! (length (pre @ [c] @ ''version: '') - 10) = c"
    by (simp add: nth_append)
  show "regex_match_version line = Some w"
    unfolding regex_match_version_def Let_def t f using w(1) c n by simp
next
  assume a: "regex_match_version line = Some w"
  define front where "front = take (length line - length w) line"
  have w: "w = rev (takeWhile (\<lambda>c. \<not> isspace c) (rev line))"
    using a by (auto simp: regex_match_version_def Let_def split: if_splits)
  have cond: "w \<noteq> []" "10 \<le> length front" "drop (length front - 9) front = ''version: ''"
    "front ! (length front - 10) \<noteq> CHR ''-''"
    using a unfolding front_def w by (auto simp: regex_match_version_def Let_def split: if_splits)
  have ns: "\<forall>x\<in>set w. \<not> isspace x"
    unfolding w using set_takeWhileD by fastforce
  have "rev line = takeWhile (\<lambda>c. \<not> isspace c) (rev line) @ dropWhile (\<lambda>c. \<not> isspace c) (rev line)"
    by simp
  then have "line = rev (dropWhile (\<lambda>c. \<not> isspace c) (rev line)) @ w"
    unfolding w by (metis rev_append rev_rev_ident)
  then have lw: "line = front @ w"
    unfolding front_def by (metis append_eq_conv_conj append_take_drop_id length_append add_diff_cancel_right')
  have "front = take (length front - 10) front @ drop (length front - 10) front"
    by simp
  moreover have "drop (length front - 10) front = front ! (length front - 10) # drop (length front - 9) front"
  proof -
    have "length front - 10 < length front" using cond(2) by simp
    then have "drop (length front - 10) front = front ! (length front - 10) # drop (Suc (length front - 10)) front"
      by (rule Cons_nth_drop_Suc [symmetric])
    moreover have "Suc (length front - 10) = length front - 9" using cond(2) by simp
    ultimately show ?thesis by simp
  qed
  ultimately have "front = take (length front - 10) front @ [front ! (length front - 10)] @ ''version: ''"
    using cond(3) by simp
  then have "line = take (length front - 10) front @ [front ! (length front - 10)] @ ''version: '' @ w"
    using lw by (metis append.assoc)
  then show "\<exists>pre c. line = pre @ [c] @ ''version: '' @ w \<and> c \<noteq> CHR ''-'' \<and> w \<noteq> []
        \<and> (\<forall>x\<in>set w. \<not> isspace x)"
    using cond(1,4) ns by blast
qed

lemma regex_match_date_iff:
  "regex_match_date line = Some w \<longleftrightarrow>
     (\<exists>ws rest. line = ws @ ''date: '' @ w @ rest \<and> (\<forall>x\<in>set ws. isspace x) \<and> w \<noteq> []
        \<and> (\<forall>x\<in>set w. \<not> isspace x) \<and> (rest = [] \<or> isspace (hd rest)))"
proof
  assume "\<exists>ws rest. line = ws @ ''date: '' @ w @ rest \<and> (\<forall>x\<in>set ws. isspace x) \<and> w \<noteq> []
        \<and> (\<forall>x\<in>set w. \<not> isspace x) \<and> (rest = [] \<or> isspace (hd rest))"
  then obtain ws rest where l: "line = ws @ ''date: '' @ w @ rest" and ws: "\<forall>x\<in>set ws. isspace x"
    and w: "w \<noteq> []" "\<forall>x\<in>set w. \<not> isspace x" and rest: "rest = [] \<or> isspace (hd rest)"
    by blast
  have "\<not> isspace CHR ''d''" by (simp add: isspace_def)
  then have d: "dropWhile isspace line = ''date: '' @ w @ rest"
    unfolding l using ws by (simp add: dropWhile_append2)
  have t: "takeWhile (\<lambda>c. \<not> isspace c) (w @ rest) = w"
  proof (cases rest)
    case Nil
    then show ?thesis using w(2) by simp
  next
    case (Cons r rs)
    then have "isspace r" using rest by simp
    then show ?thesis using w(2) Cons by (simp add: takeWhile_tail)
  qed
  show "regex_match_date line = Some w"
    unfolding regex_match_date_def Let_def d using t w(1) by simp
next
  assume a: "regex_match_date line = Some w"
  define r where "r = dropWhile isspace line"
  have c: "take 6 r = ''date: ''" "w = takeWhile (\<lambda>c. \<not> isspace c) (drop 6 r)" "w \<noteq> []"
    using a unfolding r_def by (auto simp: regex_match_date_def Let_def split: if_splits)
  have 1: "line = takeWhile isspace line @ r"
    unfolding r_def by simp
  have 2: "r = ''date: '' @ drop 6 r"
    using c(1) by (metis append_take_drop_id)
  have 3: "drop 6 r = w @ dropWhile (\<lambda>c. \<not> isspace c) (drop 6 r)"
    unfolding c(2) by simp
  have 4: "\<forall>x\<in>set (takeWhile isspace line). isspace x"
    using set_takeWhileD by fastforce
  have 5: "\<forall>x\<in>set w. \<not> isspace x"
    unfolding c(2) using set_takeWhileD by fastforce
  have 6: "dropWhile (\<lambda>c. \<not> isspace c) (drop 6 r) = [] \<or> isspace (hd (dropWhile (\<lambda>c. \<not> isspace c) (drop 6 r)))"
    using hd_dropWhile [of "\<lambda>c. \<not> isspace c" "drop 6 r"] by auto
  have "line = takeWhile isspace line @ ''date: '' @ w @ dropWhile (\<lambda>c. \<not> isspace c) (drop 6 r)"
    using 1 2 3 by metis
  then show "\<exists>ws rest. line = ws @ ''date: '' @ w @ rest \<and> (\<forall>x\<in>set ws. isspace x) \<and> w \<noteq> []
        \<and> (\<forall>x\<in>set w. \<not> isspace x) \<and> (rest = [] \<or> isspace (hd rest))"
    using 4 5 6 c(3) by blast
qed

subsection \<open>Escaping\<close>

lemma double_bslash_simps:
  "double_bslash c [] = []"
  "double_bslash c [x] = [x]"
  "double_bslash c (x # y # zs) =
     (if x = bslash \<and> y = c then bslash # bslash # c # double_bslash c zs
      else x # double_bslash c (y # zs))"
  by (auto simp: double_bslash_def)

lemma double_bslash_other:
  "x \<noteq> bslash \<Longrightarrow> double_bslash c (x # xs) = x # double_bslash c xs"
  by (cases xs) (simp_all add: double_bslash_simps)

lemma double_bslash_split:
  assumes "c \<noteq> bslash" and "d \<noteq> bslash"
  shows "double_bslash c (pre @ bslash # d # post) =
           double_bslash c pre @ (if d = c then [bslash, bslash, c] else [bslash, d])
           @ double_bslash c post"
proof (induction pre rule: induct_list012)
  case 1
  show ?case using assms by (simp add: double_bslash_simps double_bslash_other)
next
  case (2 x)
  show ?case using assms by (simp add: double_bslash_simps double_bslash_other)
next
  case (3 x y zs)
  then show ?case using assms by (simp add: double_bslash_simps)
qed

lemma double_bslash_snoc:
  assumes "c \<noteq> bslash"
  shows "double_bslash c (pre @ [bslash]) = double_bslash c pre @ [bslash]"
proof (induction pre rule: induct_list012)
  case 1
  show ?case by (simp add: double_bslash_simps)
next
  case (2 x)
  show ?case using assms by (simp add: double_bslash_simps)
next
  case (3 x y zs)
  then show ?case using assms by (simp add: double_bslash_simps)
qed

lemma fold_double_bslash_snoc:
  "bslash \<notin> set cs \<Longrightarrow>
     fold double_bslash cs (pre @ [bslash]) = fold double_bslash cs pre @ [bslash]"
  by (induction cs arbitrary: pre) (auto simp: double_bslash_snoc)

lemma fold_double_bslash_split:
  assumes "bslash \<notin> set cs" and "distinct cs" and "d \<noteq> bslash"
  shows "fold double_bslash cs (pre @ bslash # d # post) =
           fold double_bslash cs pre @ (if d \<in> set cs then [bslash, bslash, d] else [bslash, d])
           @ fold double_bslash cs post"
  using assms(1,2)
proof (induction cs arbitrary: pre post)
  case Nil
  show ?case by simp
next
  case (Cons c cs)
  have c: "c \<noteq> bslash" and cs: "bslash \<notin> set cs" and nc: "c \<notin> set cs" and dc: "distinct cs"
    using Cons.prems by auto
  show ?case
  proof (cases "d = c")
    case False
    then show ?thesis
      using Cons.IH [OF cs dc] double_bslash_split [OF c assms(3)] by simp
  next
    case True
    have "fold double_bslash (c # cs) (pre @ bslash # d # post)
        = fold double_bslash cs ((double_bslash c pre @ [bslash]) @ bslash # c # double_bslash c post)"
      using True double_bslash_split [OF c assms(3), of pre post] by simp
    also have "\<dots> = fold double_bslash cs (double_bslash c pre @ [bslash]) @ [bslash, c]
        @ fold double_bslash cs (double_bslash c post)"
      using Cons.IH [OF cs dc, of "double_bslash c pre @ [bslash]" "double_bslash c post"] True nc
      by simp
    finally show ?thesis
      using True fold_double_bslash_snoc [OF cs] by simp
  qed
qed

lemma escape_copy_fold: "escape_copy str = fold double_bslash ''!:,()[]{}'' str"
  by (simp add: escape_copy_def double_bslash_def)

text \<open>
  C10, as the code has it. A backslash in front of one of the nine characters
  \<open>! : , ( ) [ ] { }\<close> is doubled wherever it stands in a name or a definition, and the
  text on both sides is escaped on its own; a backslash in front of any other character
  but a backslash stays single. The rows of \<open>termInfos_\<close> hold the escaped name and
  definition, so a definition with backslash-colon is printed with two backslashes and
  the colon.
\<close>

theorem escape_copy_doubles_nine:
  "(d \<noteq> bslash \<longrightarrow>
      escape_copy (pre @ [bslash, d] @ post) =
        escape_copy pre
        @ (if d \<in> set ''!:,()[]{}'' then [bslash, bslash, d] else [bslash, d])
        @ escape_copy post)
   \<and> row_name (writeCpp_termInfo it) = escape_copy (Term_name it)
   \<and> row_def (writeCpp_termInfo it) = escape_copy (Term_def it)
   \<and> (Term_def it = pre @ [bslash, CHR '':''] @ post \<longrightarrow>
        row_def (writeCpp_termInfo it)
          = escape_copy pre @ [bslash, bslash, CHR '':''] @ escape_copy post)"
proof -
  have b: "bslash \<notin> set ''!:,()[]{}''" by simp
  have dist: "distinct ''!:,()[]{}''" by simp
  have 1: "escape_copy (pre @ [bslash, d] @ post) =
        escape_copy pre
        @ (if d \<in> set ''!:,()[]{}'' then [bslash, bslash, d] else [bslash, d])
        @ escape_copy post" if "d \<noteq> bslash" for d
    unfolding escape_copy_fold using fold_double_bslash_split [OF b dist that, of pre post]
    by (simp only: append_Cons append_Nil)
  have 2: "escape_copy (pre @ [bslash, CHR '':''] @ post)
      = escape_copy pre @ [bslash, bslash, CHR '':''] @ escape_copy post"
    using 1 [of "CHR '':''"] by simp
  show ?thesis
    using 1 [of d] 2 by (simp add: writeCpp_termInfo_def)
qed

theorem escape_copy_doubles_nine_witness:
  "escape_copy (''m/z'' @ [bslash, CHR '':''] @ '' ratio'')
     = ''m/z'' @ [bslash, bslash, CHR '':''] @ '' ratio''
   \<and> escape_copy (''a'' @ [bslash, CHR ''n''] @ ''b'') = ''a'' @ [bslash, CHR ''n''] @ ''b''"
  using escape_copy_doubles_nine [of "CHR '':''" "''m/z''" "'' ratio''"]
    escape_copy_doubles_nine [of "CHR ''n''" "''a''" "''b''"]
  by (simp add: escape_copy_def)

text \<open>
  The claim as it stands fails for the punctuation outside the nine: the backslash in
  front of a double quote is printed single.
\<close>

theorem escape_copy_quote_counterexample:
  "escape_copy (''a'' @ [bslash, CHR 0x22] @ ''b'') = ''a'' @ [bslash, CHR 0x22] @ ''b''
   \<and> escape_copy (''a'' @ [bslash, CHR 0x22] @ ''b'') \<noteq> ''a'' @ [bslash, bslash, CHR 0x22] @ ''b''"
  by (simp add: escape_copy_def)

section \<open>Properties of the generated accessors\<close>

subsection \<open>Initialization\<close>

lemma initialize_eq:
  "initialize T s =
     (fold initialize_cv (cvMap_assignments T)
       (cvMap_modify ''UO''
          (\<lambda>c. c\<lparr>CV_URI := ''http://obo.cvs.sourceforge.net/*checkout*/obo/obo/ontology/phenotype/unit.obo''\<rparr>)
       (cvMap_modify ''UO'' (\<lambda>c. c\<lparr>CV_fullName := ''Unit Ontology''\<rparr>)
       (cvMap_modify ''MS''
          (\<lambda>c. c\<lparr>CV_URI := ''http://psidev.cvs.sourceforge.net/*checkout*/psidev/psi/psi-ms/mzML/controlledVocabulary/psi-ms.obo''\<rparr>)
       (cvMap_modify ''MS''
          (\<lambda>c. c\<lparr>CV_fullName := ''Proteomics Standards Initiative Mass Spectrometry Ontology''\<rparr>)
       (fold initialize_synonym (relationsExactSynonym_tab T)
       (fold initialize_partOf (relationsPartOf_tab T)
       (fold initialize_isA (relationsIsA_tab T)
       (fold initialize_termInfo (termInfos_tab T) s)))))))))\<lparr>initialized_flag := True\<rparr>"
  unfolding initialize_def Let_def ..

subsection \<open>What the steps of initialize keep\<close>

lemma infoMap_modify_fields [simp]:
  "cvids_var (infoMap_modify k f s) = cvids_var s"
  "cvMap_var (infoMap_modify k f s) = cvMap_var s"
  "initialized_flag (infoMap_modify k f s) = initialized_flag s"
  by (simp_all add: infoMap_modify_def infoMap_index_def split: option.splits)

lemma cvMap_modify_fields [simp]:
  "cvids_var (cvMap_modify k f s) = cvids_var s"
  "infoMap_var (cvMap_modify k f s) = infoMap_var s"
  "initialized_flag (cvMap_modify k f s) = initialized_flag s"
  by (simp_all add: cvMap_modify_def cvMap_index_def split: option.splits)

lemma infoMap_modify_None [simp]:
  "infoMap_var (infoMap_modify k f s) c = None \<longleftrightarrow> c \<noteq> k \<and> infoMap_var s c = None"
  by (simp add: infoMap_modify_def infoMap_index_def split: option.splits)

lemma fold_infoMap_modify_cvids:
  "cvids_var (fold (\<lambda>it. infoMap_modify (g it) (h it)) xs s) = cvids_var s"
  by (induction xs arbitrary: s) simp_all

lemma fold_infoMap_modify_None:
  "infoMap_var (fold (\<lambda>it. infoMap_modify (g it) (h it)) xs s) c = None
     \<longleftrightarrow> c \<notin> g ` set xs \<and> infoMap_var s c = None"
  by (induction xs arbitrary: s) auto

lemma fold_initialize_cv_fields:
  "cvids_var (fold initialize_cv xs s) = cvids_var s"
  "infoMap_var (fold initialize_cv xs s) = infoMap_var s"
  by (induction xs arbitrary: s) (simp_all add: initialize_cv_def)

lemma fold_initialize_termInfo_cvids:
  "cvids_var (fold initialize_termInfo xs s) = cvids_var s @ map TermInfo_cvid xs"
  by (induction xs arbitrary: s) (simp_all add: initialize_termInfo_def)

lemma fold_initialize_termInfo_None:
  "infoMap_var (fold initialize_termInfo xs s) c = None
     \<longleftrightarrow> c \<notin> TermInfo_cvid ` set xs \<and> infoMap_var s c = None"
  by (induction xs arbitrary: s) (auto simp: initialize_termInfo_def)

lemma initialize_isA_fold: "fold initialize_isA xs = fold (\<lambda>it. infoMap_modify (fst it)
     (\<lambda>info. info\<lparr>CVTermInfo_parentsIsA := CVTermInfo_parentsIsA info @ [snd it]\<rparr>)) xs"
  by (rule arg_cong [where f = "\<lambda>f. fold f xs"]) (simp add: fun_eq_iff initialize_isA_def)

lemma initialize_partOf_fold: "fold initialize_partOf xs = fold (\<lambda>it. infoMap_modify (fst it)
     (\<lambda>info. info\<lparr>CVTermInfo_parentsPartOf := CVTermInfo_parentsPartOf info @ [snd it]\<rparr>)) xs"
  by (rule arg_cong [where f = "\<lambda>f. fold f xs"]) (simp add: fun_eq_iff initialize_partOf_def)

lemma initialize_synonym_fold: "fold initialize_synonym xs = fold (\<lambda>it. infoMap_modify (fst it)
     (\<lambda>info. info\<lparr>CVTermInfo_exactSynonyms := CVTermInfo_exactSynonyms info @ [snd it]\<rparr>)) xs"
  by (rule arg_cong [where f = "\<lambda>f. fold f xs"]) (simp add: fun_eq_iff initialize_synonym_def)

lemma initialize_cvids:
  "cvids_var (initialize T s) = cvids_var s @ map TermInfo_cvid (termInfos_tab T)"
  by (simp add: initialize_eq fold_initialize_cv_fields initialize_isA_fold initialize_partOf_fold
      initialize_synonym_fold fold_infoMap_modify_cvids fold_initialize_termInfo_cvids)

lemma initialize_None:
  "infoMap_var (initialize T s) c = None \<longleftrightarrow> c \<notin> table_keys T \<and> infoMap_var s c = None"
  by (simp add: initialize_eq fold_initialize_cv_fields initialize_isA_fold initialize_partOf_fold
      initialize_synonym_fold fold_infoMap_modify_None fold_initialize_termInfo_None table_keys_def)
    blast

lemma initialize_flag [simp]: "initialized_flag (initialize T s)"
  by (simp add: initialize_def Let_def)

lemma ensure_initialized_flag [simp]: "initialized_flag (ensure_initialized T s)"
  by (simp add: ensure_initialized_def)

lemma ensure_initialized_id [simp]: "initialized_flag s \<Longrightarrow> ensure_initialized T s = s"
  by (simp add: ensure_initialized_def)

lemma ensure_initialized_start: "ensure_initialized T start = initialize T start"
  by (simp add: ensure_initialized_def start_def)

subsection \<open>The codes of the compiled tables\<close>

lemma those_map_Some:
  "those (map f xs) = Some ys \<Longrightarrow> list_all2 (\<lambda>x y. f x = Some y) xs ys"
proof (induction xs arbitrary: ys)
  case Nil
  then show ?case by simp
next
  case (Cons x xs)
  then show ?case by (auto split: option.splits)
qed

lemma declare_enum_Cons:
  assumes "declare_enum ((m, init) # es) env = Some env'"
  obtains w where "env m = None" and "declare_enum es (env(m \<mapsto> w)) = Some env'"
    and "init = Int_init w \<or> (\<exists>k. init = Name_init k \<and> env k = Some w)"
  using assms by (cases init) (auto split: if_splits option.splits)

lemma declare_enum_keeps:
  "declare_enum es env = Some env' \<Longrightarrow> env n = Some v \<Longrightarrow> env' n = Some v"
proof (induction es arbitrary: env)
  case Nil
  then show ?case by simp
next
  case (Cons e es)
  obtain m init where e: "e = (m, init)" by (cases e)
  from Cons.prems(1) obtain w where m: "env m = None"
    and rest: "declare_enum es (env(m \<mapsto> w)) = Some env'"
    unfolding e by (rule declare_enum_Cons)
  have "n \<noteq> m" using m Cons.prems(2) by auto
  then have "(env(m \<mapsto> w)) n = Some v" using Cons.prems(2) by simp
  with rest show ?case by (rule Cons.IH)
qed

lemma declare_enum_Int:
  "declare_enum es env = Some env' \<Longrightarrow> (n, Int_init v) \<in> set es \<Longrightarrow> env' n = Some v"
proof (induction es arbitrary: env)
  case Nil
  then show ?case by simp
next
  case (Cons e es)
  obtain m init where e: "e = (m, init)" by (cases e)
  from Cons.prems(1) obtain w where m: "env m = None"
    and rest: "declare_enum es (env(m \<mapsto> w)) = Some env'"
    and w: "init = Int_init w \<or> (\<exists>k. init = Name_init k \<and> env k = Some w)"
    unfolding e by (rule declare_enum_Cons)
  show ?case
  proof (cases "(n, Int_init v) = e")
    case True
    then have "m = n" and "w = v" using e w by auto
    then have "(env(m \<mapsto> w)) n = Some v" by simp
    with rest show ?thesis by (rule declare_enum_keeps)
  next
    case False
    then have "(n, Int_init v) \<in> set es" using Cons.prems(2) by auto
    with rest show ?thesis by (rule Cons.IH)
  qed
qed

lemma writeHpp_enum_term:
  assumes "p \<in> set (enumerate 0 obos)" and "it \<in> set (OBO_terms (snd p))"
  shows "(enumName_term it, Int_init (uint (enumValue it (of_nat (fst p))))) \<in> set (writeHpp_enum obos)"
proof -
  have "(enumName_term it, Int_init (uint (enumValue it (of_nat (fst p)))))
      \<in> set (writeHpp_term (snd p) (of_nat (fst p)) it)"
    by (simp add: writeHpp_term_def)
  then have "(enumName_term it, Int_init (uint (enumValue it (of_nat (fst p))))) \<in> set (writeHpp_obo p)"
    using assms(2) by (auto simp: writeHpp_obo_def)
  then show ?thesis
    using assms(1) by (auto simp: writeHpp_enum_def)
qed

lemma compiled_cvids:
  assumes "generateFiles obos = Some a" and "compile lit a = Some T"
  shows "map TermInfo_cvid (termInfos_tab T) = CVID_Unknown # term_codes obos"
proof -
  have a: "art_enum a = writeHpp_enum obos" "art_termInfos a = writeCpp_termInfos obos"
    using assms(1) by (auto simp: generateFiles_def split: option.splits)
  obtain env where env: "declare_enum (writeHpp_enum obos) Map.empty = Some env"
    and infos: "those (map (compile_termInfo lit env) (writeCpp_termInfos obos)) = Some (termInfos_tab T)"
    using assms(2) a by (auto simp: compile_def split: option.splits)
  have all2: "list_all2 (\<lambda>r i. compile_termInfo lit env r = Some i) (writeCpp_termInfos obos) (termInfos_tab T)"
    using infos by (rule those_map_Some)
  have cv: "list_all2 (\<lambda>r c. env (row_cvid r) = Some c) (writeCpp_termInfos obos)
      (map TermInfo_cvid (termInfos_tab T))"
    unfolding list_all2_map2
    by (rule list_all2_mono [OF all2]) (auto simp: compile_termInfo_def)
  have unk: "env ''CVID_Unknown'' = Some (- 1)"
    using env by (rule declare_enum_Int) (simp add: writeHpp_enum_def)
  have e: "map g obos = map (\<lambda>p. g (snd p)) (enumerate 0 obos)" for g :: "OBO \<Rightarrow> string list"
  proof -
    have "map (\<lambda>p. g (snd p)) (enumerate 0 obos) = map g (map snd (enumerate 0 obos))"
      unfolding map_map comp_def ..
    then show ?thesis by (simp only: map_snd_enumerate)
  qed
  have rows: "map row_cvid (writeCpp_termInfos obos) =
      ''CVID_Unknown'' # concat (map (\<lambda>p. map enumName_term (OBO_terms (snd p))) (enumerate 0 obos))"
    using e [of "\<lambda>obo. map enumName_term (OBO_terms obo)"]
    by (simp add: writeCpp_termInfos_def map_concat comp_def writeCpp_termInfo_def)
  have step: "list_all2 (\<lambda>n c. env n = Some c)
      (map enumName_term (OBO_terms (snd p)))
      (map (\<lambda>it. uint (enumValue it (of_nat (fst p)))) (OBO_terms (snd p)))"
    if "p \<in> set (enumerate 0 obos)" for p
    unfolding list_all2_map1 list_all2_map2
  proof (rule list_all2_same [THEN iffD2], rule ballI)
    fix it assume "it \<in> set (OBO_terms (snd p))"
    with that have "(enumName_term it, Int_init (uint (enumValue it (of_nat (fst p)))))
        \<in> set (writeHpp_enum obos)"
      by (rule writeHpp_enum_term)
    with env show "env (enumName_term it) = Some (uint (enumValue it (of_nat (fst p))))"
      by (rule declare_enum_Int)
  qed
  have conc: "list_all2 (\<lambda>n c. env n = Some c)
      (concat (map (\<lambda>p. map enumName_term (OBO_terms (snd p))) ps))
      (concat (map (\<lambda>p. map (\<lambda>it. uint (enumValue it (of_nat (fst p)))) (OBO_terms (snd p))) ps))"
    if "set ps \<subseteq> set (enumerate 0 obos)" for ps
    using that
  proof (induction ps)
    case Nil
    show ?case by simp
  next
    case (Cons p ps)
    then show ?case using step [of p] by (simp add: list_all2_appendI)
  qed
  have names: "list_all2 (\<lambda>n c. env n = Some c)
      (map row_cvid (writeCpp_termInfos obos)) (CVID_Unknown # term_codes obos)"
    unfolding rows term_codes_def CVID_Unknown_def using unk conc [of "enumerate 0 obos"] by simp
  have "list_all2 (=) (map TermInfo_cvid (termInfos_tab T)) (CVID_Unknown # term_codes obos)"
  proof (rule list_all2_all_nthI)
    show len: "length (map TermInfo_cvid (termInfos_tab T)) = length (CVID_Unknown # term_codes obos)"
      using list_all2_lengthD [OF cv] list_all2_lengthD [OF names] by simp
    fix i assume i: "i < length (map TermInfo_cvid (termInfos_tab T))"
    have 1: "env (row_cvid (writeCpp_termInfos obos ! i)) = Some (map TermInfo_cvid (termInfos_tab T) ! i)"
      using list_all2_nthD2 [OF cv i] .
    have 2: "env (map row_cvid (writeCpp_termInfos obos) ! i) = Some ((CVID_Unknown # term_codes obos) ! i)"
      using list_all2_nthD2 [OF names, of i] i len by simp
    have "i < length (writeCpp_termInfos obos)"
      using list_all2_lengthD [OF cv] i by simp
    then show "map TermInfo_cvid (termInfos_tab T) ! i = (CVID_Unknown # term_codes obos) ! i"
      using 1 2 by simp
  qed
  then show ?thesis by (simp add: list_all2_eq)
qed

text \<open>
  C6, as the code has it. \<open>initialize\<close> appends the code of every row of
  \<open>termInfos_\<close> to \<open>cvids_\<close>, and the first row is the row of \<open>CVID_Unknown\<close>.
  For the tables compiled from the generated files, the first call of \<open>cvids()\<close>
  returns \<open>CVID_Unknown\<close> followed by the global code of every term, one for each
  term, in the order of generation, and nothing for the synonyms.
\<close>

theorem cvids_all_codes:
  assumes "generateFiles obos = Some a" and "compile lit a = Some T"
  shows "fst (cvids T start) = CVID_Unknown # term_codes obos"
proof -
  have "cvids_var start = []" by (simp add: start_def)
  then show ?thesis
    using compiled_cvids [OF assms]
    by (simp add: cvids_def ensure_initialized_start initialize_cvids Let_def)
qed

subsection \<open>Splitting at the colon\<close>

lemma bal_split_length: "length (bal_split sep s) = Suc (length (filter sep s))"
  by (induction s) (simp_all add: Let_def)

lemma bal_split_none: "\<forall>c\<in>set s. \<not> sep c \<Longrightarrow> bal_split sep s = [s]"
  by (induction s) (simp_all add: Let_def)

lemma bal_split_one:
  "\<forall>c\<in>set a. \<not> sep c \<Longrightarrow> \<forall>c\<in>set b. \<not> sep c \<Longrightarrow> sep x \<Longrightarrow> bal_split sep (a @ x # b) = [a, b]"
  by (induction a) (simp_all add: Let_def bal_split_none)

lemma length_takeWhile_all: "length (takeWhile P xs) = length xs \<longleftrightarrow> (\<forall>x\<in>set xs. P x)"
  by (induction xs) auto

lemma find_if_StringEquals_end:
  "find_if_StringEquals prefixes mine = length prefixes \<longleftrightarrow> mine \<notin> set prefixes"
  by (auto simp: find_if_StringEquals_def length_takeWhile_all)

lemma find_if_StringEquals_absent:
  "mine \<notin> set prefixes \<Longrightarrow> find_if_StringEquals prefixes mine = length prefixes"
  by (simp add: find_if_StringEquals_end)

lemma find_if_StringEquals_present:
  "mine \<in> set prefixes \<Longrightarrow> find_if_StringEquals prefixes mine \<noteq> length prefixes"
  by (simp add: find_if_StringEquals_end)

lemma stringToCVID_no_digits:
  "strtoul_digits (c_str str) = [] \<Longrightarrow> stringToCVID ulong_max str = Inl Bad_lexical_cast"
  by (simp add: stringToCVID_def strtoul_def Let_def)


lemma stringToCVID_error_iff:
  "stringToCVID ulong_max str = Inl Bad_lexical_cast \<longleftrightarrow>
     strtoul_digits (c_str str) = [] \<or> ulong_max < decimal (strtoul_digits (c_str str))"
  by (auto simp add: stringToCVID_def strtoul_def Let_def decimal_def)

lemma cvTermInfo_string_format:
  assumes "length (filter (\<lambda>c. c = CHR '':'') ident) \<noteq> 1"
  shows "cvTermInfo_string ulong_max T s ident =
    (Inl (Runtime_error (''[cvinfo] Error splitting id '' @ [CHR 0x22] @ ident @ [CHR 0x22]
                      @ '' into prefix and numeric components'')), ensure_initialized T s)"
  using assms by (simp add: cvTermInfo_string_def bal_split_length Let_def)

lemma cvTermInfo_string_unmatched:
  assumes "CHR '':'' \<notin> set prefix" and "CHR '':'' \<notin> set cvidStr"
    and "c_str prefix \<notin> set (oboPrefixes_tab T)"
  shows "cvTermInfo_string ulong_max T s (prefix @ '':'' @ cvidStr) =
    (Inr (fst (cvTermInfo T s CVID_Unknown)), snd (cvTermInfo T s CVID_Unknown))"
proof -
  have "bal_split (\<lambda>c. c = CHR '':'') (prefix @ CHR '':'' # cvidStr) = [prefix, cvidStr]"
    using assms(1,2) by (intro bal_split_one) auto
  then show ?thesis
    using find_if_StringEquals_absent [OF assms(3)]
    by (simp add: cvTermInfo_string_def cvTermInfo_def Let_def split: prod.splits)
qed

lemma cvTermInfo_string_matched:
  assumes "CHR '':'' \<notin> set prefix" and "CHR '':'' \<notin> set cvidStr"
    and "c_str prefix \<in> set (oboPrefixes_tab T)"
  shows "cvTermInfo_string ulong_max T s (prefix @ '':'' @ cvidStr) =
    (case stringToCVID ulong_max cvidStr of
       Inl e \<Rightarrow> (Inl e, ensure_initialized T s)
     | Inr n \<Rightarrow> (Inr (fst (cvTermInfo T s
           (to_CVID (of_nat (find_if_StringEquals (oboPrefixes_tab T) (c_str prefix)) * enumBlockSize + of_nat n)))),
          snd (cvTermInfo T s
           (to_CVID (of_nat (find_if_StringEquals (oboPrefixes_tab T) (c_str prefix)) * enumBlockSize + of_nat n)))))"
proof -
  have "bal_split (\<lambda>c. c = CHR '':'') (prefix @ CHR '':'' # cvidStr) = [prefix, cvidStr]"
    using assms(1,2) by (intro bal_split_one) auto
  then show ?thesis
    using find_if_StringEquals_present [OF assms(3)]
    by (simp add: cvTermInfo_string_def cvTermInfo_def Let_def split: prod.splits sum.splits)
qed

subsection \<open>The is-a test\<close>

lemma infoMap_index_parents:
  "CVTermInfo_parentsIsA (fst (infoMap_index s k)) = isa_parents s k"
  by (simp add: infoMap_index_def isa_parents_def default_CVTermInfo_def split: option.splits)

lemma infoMap_index_isa_parents:
  "isa_parents (snd (infoMap_index s k)) = isa_parents s"
  by (auto simp: infoMap_index_def isa_parents_def default_CVTermInfo_def fun_eq_iff split: option.splits)

lemma infoMap_index_flag:
  "initialized_flag (snd (infoMap_index s k)) = initialized_flag s"
  by (simp add: infoMap_index_def split: option.splits)

lemma cvTermInfo_initialized:
  "initialized_flag s \<Longrightarrow> cvTermInfo T s k = infoMap_index s k"
  by (simp add: cvTermInfo_def)

lemma isa_edges_unfold:
  "(c, p) \<in> (isa_edges s)\<^sup>* \<longleftrightarrow> c = p \<or> (\<exists>q\<in>set (isa_parents s c). (q, p) \<in> (isa_edges s)\<^sup>*)"
proof
  assume "(c, p) \<in> (isa_edges s)\<^sup>*"
  then show "c = p \<or> (\<exists>q\<in>set (isa_parents s c). (q, p) \<in> (isa_edges s)\<^sup>*)"
    by (cases rule: converse_rtranclE) (auto simp: isa_edges_def)
next
  assume "c = p \<or> (\<exists>q\<in>set (isa_parents s c). (q, p) \<in> (isa_edges s)\<^sup>*)"
  then show "(c, p) \<in> (isa_edges s)\<^sup>*"
    by (auto simp: isa_edges_def intro: converse_rtrancl_into_rtrancl)
qed

text \<open>A call that returns with some depth of calls returns the same with more.\<close>

lemma cvIsA_deeper:
  "cvIsA depth T s child parent = Some r \<Longrightarrow> cvIsA (Suc depth) T s child parent = Some r"
  "cvIsA_loop depth T s its parent = Some r \<Longrightarrow> cvIsA_loop (Suc depth) T s its parent = Some r"
proof (induction depth T s child parent and depth T s its parent arbitrary: r and r
    rule: cvIsA_cvIsA_loop.induct)
  case (1 T s child parent)
  then show ?case by simp
next
  case (2 depth T s child parent)
  show ?case
  proof (cases "child = parent")
    case True
    then show ?thesis using "2.prems" by simp
  next
    case False
    obtain info s1 where c: "cvTermInfo T s child = (info, s1)"
      by (cases "cvTermInfo T s child")
    have "cvIsA_loop depth T s1 (CVTermInfo_parentsIsA info) parent = Some r"
      using "2.prems" False c by simp
    with "2.IH" [OF False c [symmetric] refl]
    have "cvIsA_loop (Suc depth) T s1 (CVTermInfo_parentsIsA info) parent = Some r" .
    then show ?thesis using False c by simp
  qed
next
  case (3 depth T s parent)
  then show ?case by simp
next
  case (4 depth T s it its parent)
  from "4.prems" obtain b s1 where c: "cvIsA depth T s it parent = Some (b, s1)"
    by (auto split: option.splits)
  have c': "cvIsA (Suc depth) T s it parent = Some (b, s1)"
    using "4.IH"(1) [OF c] .
  have u: "cvIsA_loop (Suc depth) T s (it # its) parent =
      (if b then Some (True, s1) else cvIsA_loop (Suc depth) T s1 its parent)"
    by (simp only: cvIsA_loop.simps c' option.case prod.case)
  have v: "cvIsA_loop depth T s (it # its) parent =
      (if b then Some (True, s1) else cvIsA_loop depth T s1 its parent)"
    by (simp only: cvIsA_loop.simps c option.case prod.case)
  show ?case
  proof (cases b)
    case True
    then show ?thesis using "4.prems" u v by simp
  next
    case False
    then have "cvIsA_loop depth T s1 its parent = Some r"
      using "4.prems" v by simp
    with "4.IH"(2) [OF c refl] False have "cvIsA_loop (Suc depth) T s1 its parent = Some r"
      by simp
    then show ?thesis using False u by simp
  qed
qed

text \<open>
  From the start of the process, the direct is-a parents of a code are the second
  columns of its rows in \<open>relationsIsA_\<close>, in the order of the table.
\<close>

lemma isa_parents_infoMap_modify:
  "isa_parents (infoMap_modify k f s) c =
     (if c = k then CVTermInfo_parentsIsA (f (fst (infoMap_index s k))) else isa_parents s c)"
  by (simp add: isa_parents_def infoMap_modify_def infoMap_index_def split: option.splits)

lemma isa_parents_cvMap_modify [simp]: "isa_parents (cvMap_modify k f s) = isa_parents s"
  by (simp add: isa_parents_def fun_eq_iff)

lemma isa_parents_fold_initialize_cv [simp]: "isa_parents (fold initialize_cv xs s) = isa_parents s"
  by (simp add: isa_parents_def fun_eq_iff fold_initialize_cv_fields)

lemma isa_parents_flag [simp]: "isa_parents (s\<lparr>initialized_flag := b\<rparr>) = isa_parents s"
  by (simp add: isa_parents_def fun_eq_iff)

lemma isa_parents_fold_termInfo:
  "isa_parents (fold initialize_termInfo xs s) c =
     (if c \<in> TermInfo_cvid ` set xs then [] else isa_parents s c)"
proof (induction xs arbitrary: s)
  case Nil
  show ?case by simp
next
  case (Cons x xs)
  have "isa_parents (initialize_termInfo x s) c = (if c = TermInfo_cvid x then [] else isa_parents s c)"
    by (simp add: isa_parents_def initialize_termInfo_def)
  then show ?case using Cons.IH [of "initialize_termInfo x s"] by auto
qed

lemma isa_parents_fold_isA:
  "isa_parents (fold initialize_isA xs s) c = isa_parents s c @ map snd (filter (\<lambda>p. fst p = c) xs)"
proof (induction xs arbitrary: s)
  case Nil
  show ?case by simp
next
  case (Cons x xs)
  have "isa_parents (initialize_isA x s) c =
      (if c = fst x then isa_parents s c @ [snd x] else isa_parents s c)"
    by (simp add: initialize_isA_def isa_parents_infoMap_modify infoMap_index_parents)
  then show ?case using Cons.IH [of "initialize_isA x s"] by auto
qed

lemma isa_parents_fold_partOf [simp]:
  "isa_parents (fold initialize_partOf xs s) = isa_parents s"
proof (induction xs arbitrary: s)
  case Nil
  show ?case by simp
next
  case (Cons x xs)
  have "isa_parents (initialize_partOf x s) = isa_parents s"
    by (simp add: fun_eq_iff initialize_partOf_def isa_parents_infoMap_modify infoMap_index_parents)
  then show ?case using Cons.IH [of "initialize_partOf x s"] by simp
qed

lemma isa_parents_fold_synonym [simp]:
  "isa_parents (fold initialize_synonym xs s) = isa_parents s"
proof (induction xs arbitrary: s)
  case Nil
  show ?case by simp
next
  case (Cons x xs)
  have "isa_parents (initialize_synonym x s) = isa_parents s"
    by (simp add: fun_eq_iff initialize_synonym_def isa_parents_infoMap_modify infoMap_index_parents)
  then show ?case using Cons.IH [of "initialize_synonym x s"] by simp
qed

lemma isa_parents_start:
  "isa_parents (ensure_initialized T start) c = map snd (filter (\<lambda>p. fst p = c) (relationsIsA_tab T))"
proof -
  have "isa_parents start c = []"
    by (simp add: isa_parents_def start_def)
  then show ?thesis
    by (simp add: ensure_initialized_start initialize_eq isa_parents_fold_isA isa_parents_fold_termInfo)
qed

lemma cvIsA_total:
  assumes ranked: "\<And>c q. q \<in> set (isa_parents s0 c) \<Longrightarrow> rank q < rank c"
  shows "initialized_flag s \<Longrightarrow> isa_parents s = isa_parents s0 \<Longrightarrow> rank child < depth \<Longrightarrow>
      \<exists>s'. cvIsA depth T s child parent = Some ((child, parent) \<in> (isa_edges s0)\<^sup>*, s')
         \<and> initialized_flag s' \<and> isa_parents s' = isa_parents s0"
    and "initialized_flag s \<Longrightarrow> isa_parents s = isa_parents s0 \<Longrightarrow> \<forall>q\<in>set its. rank q < depth \<Longrightarrow>
      \<exists>s'. cvIsA_loop depth T s its parent = Some (\<exists>q\<in>set its. (q, parent) \<in> (isa_edges s0)\<^sup>*, s')
         \<and> initialized_flag s' \<and> isa_parents s' = isa_parents s0"
proof (induction depth T s child parent and depth T s its parent rule: cvIsA_cvIsA_loop.induct)
  case (1 T s child parent)
  then show ?case by simp
next
  case (2 depth T s child parent)
  show ?case
  proof (cases "child = parent")
    case True
    then show ?thesis using "2.prems" by simp
  next
    case False
    obtain info s1 where c: "cvTermInfo T s child = (info, s1)"
      by (cases "cvTermInfo T s child")
    then have i: "infoMap_index s child = (info, s1)"
      using "2.prems"(1) by (simp add: cvTermInfo_initialized)
    have par: "CVTermInfo_parentsIsA info = isa_parents s0 child"
      using infoMap_index_parents [of s child] i "2.prems"(2) by simp
    have s1: "initialized_flag s1" "isa_parents s1 = isa_parents s0"
      using infoMap_index_flag [of s child] infoMap_index_isa_parents [of s child] i "2.prems"(1,2)
      by simp_all
    have "\<forall>q\<in>set (CVTermInfo_parentsIsA info). rank q < depth"
      using par ranked [of _ child] "2.prems"(3) by fastforce
    from "2.IH" [OF False c [symmetric] refl s1 this]
    obtain s' where l: "cvIsA_loop depth T s1 (CVTermInfo_parentsIsA info) parent =
        Some (\<exists>q\<in>set (CVTermInfo_parentsIsA info). (q, parent) \<in> (isa_edges s0)\<^sup>*, s')"
      and s': "initialized_flag s'" "isa_parents s' = isa_parents s0"
      by blast
    have "(child, parent) \<in> (isa_edges s0)\<^sup>* \<longleftrightarrow>
        (\<exists>q\<in>set (CVTermInfo_parentsIsA info). (q, parent) \<in> (isa_edges s0)\<^sup>*)"
      using isa_edges_unfold [of child parent s0] False par by simp
    then show ?thesis
      using False c l s' by simp
  qed
next
  case (3 depth T s parent)
  then show ?case by simp
next
  case (4 depth T s it its parent)
  have r: "rank it < depth" and rs: "\<forall>q\<in>set its. rank q < depth"
    using "4.prems"(3) by simp_all
  from "4.IH"(1) [OF "4.prems"(1,2) r]
  obtain s1 where c: "cvIsA depth T s it parent = Some ((it, parent) \<in> (isa_edges s0)\<^sup>*, s1)"
    and s1: "initialized_flag s1" "isa_parents s1 = isa_parents s0"
    by blast
  show ?case
  proof (cases "(it, parent) \<in> (isa_edges s0)\<^sup>*")
    case True
    then show ?thesis using c s1 by auto
  next
    case False
    from "4.IH"(2) [OF c refl _ s1 rs] False
    obtain s' where "cvIsA_loop depth T s1 its parent =
        Some (\<exists>q\<in>set its. (q, parent) \<in> (isa_edges s0)\<^sup>*, s')"
      and "initialized_flag s'" "isa_parents s' = isa_parents s0"
      by blast
    then show ?thesis using c False by auto
  qed
qed

lemma ensure_initialized_idem [simp]:
  "ensure_initialized T (ensure_initialized T s) = ensure_initialized T s"
  by simp

lemma cvTermInfo_ensure: "cvTermInfo T (ensure_initialized T s) k = cvTermInfo T s k"
  by (simp add: cvTermInfo_def)

lemma cvIsA_ensure: "child \<noteq> parent \<Longrightarrow>
    cvIsA depth T (ensure_initialized T s) child parent = cvIsA depth T s child parent"
  by (cases depth) (simp_all add: cvTermInfo_ensure)

lemma cvIsA_result_ensure:
  "cvIsA_result depth T (ensure_initialized T s) child parent = cvIsA_result depth T s child parent"
proof (cases "child = parent")
  case True
  then show ?thesis by (cases depth) (simp_all add: cvIsA_result_def)
next
  case False
  then show ?thesis by (simp add: cvIsA_result_def cvIsA_ensure)
qed

lemma cvIsA_result_closure:
  assumes "\<forall>c q. q \<in> set (isa_parents (ensure_initialized T s) c) \<longrightarrow> rank q < rank c"
    and "rank child < depth"
  shows "cvIsA_result depth T s child parent
           = Some ((child, parent) \<in> (isa_edges (ensure_initialized T s))\<^sup>*)"
proof -
  let ?s = "ensure_initialized T s"
  have "\<exists>s'. cvIsA depth T ?s child parent = Some ((child, parent) \<in> (isa_edges ?s)\<^sup>*, s')
         \<and> initialized_flag s' \<and> isa_parents s' = isa_parents ?s"
    using assms by (intro cvIsA_total(1) [where rank = rank]) auto
  then have "cvIsA_result depth T ?s child parent = Some ((child, parent) \<in> (isa_edges ?s)\<^sup>*)"
    by (auto simp: cvIsA_result_def)
  then show ?thesis by (simp add: cvIsA_result_ensure)
qed

lemma cvIsA_cycle:
  "initialized_flag s \<Longrightarrow> isa_parents s 1 = [1, 2] \<Longrightarrow> cvIsA depth T s 1 2 = None"
proof (induction depth arbitrary: s)
  case 0
  show ?case by simp
next
  case (Suc depth)
  obtain info s1 where i: "infoMap_index s 1 = (info, s1)"
    by (cases "infoMap_index s 1")
  have par: "CVTermInfo_parentsIsA info = [1, 2]"
    using infoMap_index_parents [of s 1] i Suc.prems(2) by simp
  have "initialized_flag s1" "isa_parents s1 1 = [1, 2]"
    using infoMap_index_flag [of s 1] infoMap_index_isa_parents [of s 1] i Suc.prems by simp_all
  then have "cvIsA depth T s1 1 2 = None"
    by (rule Suc.IH)
  then show ?case
    using i par Suc.prems(1) by (simp add: cvTermInfo_initialized)
qed

lemma cyclic_parents: "isa_parents (initialize cyclic_tables start) 1 = [1, 2]"
  by (simp add: isa_parents_def initialize_eq cyclic_tables_def initialize_cv_def
      initialize_isA_def initialize_partOf_def initialize_synonym_def initialize_termInfo_def
      infoMap_modify_def infoMap_index_def start_def default_CVTermInfo_def)

lemma cvIsA_cyclic_tables: "cvIsA_result depth cyclic_tables start 1 2 = None"
proof -
  have "cvIsA depth cyclic_tables (ensure_initialized cyclic_tables start) 1 2 = None"
    by (rule cvIsA_cycle) (simp_all add: ensure_initialized_start cyclic_parents)
  then have "cvIsA_result depth cyclic_tables (ensure_initialized cyclic_tables start) 1 2 = None"
    by (simp add: cvIsA_result_def)
  then show ?thesis by (simp add: cvIsA_result_ensure)
qed

lemma cvIsA_acyclic:
  assumes "\<forall>c q. q \<in> set (isa_parents (ensure_initialized T s) c) \<longrightarrow> rank q < rank c"
    and "rank child < depth"
  shows "cvIsA_result depth T s child parent =
           Some (child = parent
                 \<or> (\<exists>p\<in>set (isa_parents (ensure_initialized T s) child).
                       cvIsA_result depth T (ensure_initialized T s) p parent = Some True))
    \<and> cvIsA_result depth T s child parent
        = Some ((child, parent) \<in> (isa_edges (ensure_initialized T s))\<^sup>*)
    \<and> cvIsA_result depth T s child child = Some True
    \<and> (B \<in> set (isa_parents (ensure_initialized T s) child)
         \<longrightarrow> cvIsA_result depth T s child B = Some True)
    \<and> (B \<in> set (isa_parents (ensure_initialized T s) child)
         \<and> C \<in> set (isa_parents (ensure_initialized T s) B)
         \<longrightarrow> cvIsA_result depth T s child C = Some True)
    \<and> isa_parents (ensure_initialized T start) child
        = map snd (filter (\<lambda>p. fst p = child) (relationsIsA_tab T))
    \<and> cvIsA_result depth cyclic_tables start 1 2 = None"
proof -
  let ?s = "ensure_initialized T s"
  have res: "cvIsA_result depth T s child x = Some ((child, x) \<in> (isa_edges ?s)\<^sup>*)" for x
    using assms by (rule cvIsA_result_closure)
  have par: "cvIsA_result depth T ?s p parent = Some ((p, parent) \<in> (isa_edges ?s)\<^sup>*)"
    if "p \<in> set (isa_parents ?s child)" for p
  proof -
    have "rank p < depth" using assms that by fastforce
    with assms(1) show ?thesis
      using cvIsA_result_closure [of T ?s rank p depth parent] by simp
  qed
  have 1: "cvIsA_result depth T s child parent =
           Some (child = parent
                 \<or> (\<exists>p\<in>set (isa_parents ?s child). cvIsA_result depth T ?s p parent = Some True))"
    unfolding res using isa_edges_unfold [of child parent ?s] par by auto
  have 3: "cvIsA_result depth T s child child = Some True"
    unfolding res by simp
  have 4: "cvIsA_result depth T s child B = Some True" if "B \<in> set (isa_parents ?s child)"
    unfolding res using that by (auto simp: isa_edges_def)
  have 5: "cvIsA_result depth T s child C = Some True"
    if "B \<in> set (isa_parents ?s child)" "C \<in> set (isa_parents ?s B)"
  proof -
    have "(child, B) \<in> isa_edges ?s" "(B, C) \<in> isa_edges ?s"
      using that by (auto simp: isa_edges_def)
    then have "(child, C) \<in> (isa_edges ?s)\<^sup>*" by auto
    then show ?thesis unfolding res by simp
  qed
  show ?thesis
    using 1 res [of parent] 3 4 5 isa_parents_start [of T child] cvIsA_cyclic_tables [of depth]
    by blast
qed

subsection \<open>The frame of the accessors\<close>

lemma state_extends_refl [simp]: "state_extends s s"
  by (simp add: state_extends_def)

lemma state_extends_trans:
  assumes "state_extends s s'" and "state_extends s' s''"
  shows "state_extends s s''"
  unfolding state_extends_def
proof (intro conjI allI)
  show "initialized_flag s'' = initialized_flag s" "cvids_var s'' = cvids_var s"
    using assms by (simp_all add: state_extends_def)
next
  fix k
  from assms have a: "infoMap_var s' k = infoMap_var s k
      \<or> (infoMap_var s k = None \<and> infoMap_var s' k = Some default_CVTermInfo)"
    and b: "infoMap_var s'' k = infoMap_var s' k
      \<or> (infoMap_var s' k = None \<and> infoMap_var s'' k = Some default_CVTermInfo)"
    by (simp_all add: state_extends_def)
  then show "infoMap_var s'' k = infoMap_var s k
      \<or> (infoMap_var s k = None \<and> infoMap_var s'' k = Some default_CVTermInfo)"
    by auto
next
  fix k
  from assms have a: "cvMap_var s' k = cvMap_var s k
      \<or> (cvMap_var s k = None \<and> cvMap_var s' k = Some default_CV)"
    and b: "cvMap_var s'' k = cvMap_var s' k
      \<or> (cvMap_var s' k = None \<and> cvMap_var s'' k = Some default_CV)"
    by (simp_all add: state_extends_def)
  then show "cvMap_var s'' k = cvMap_var s k
      \<or> (cvMap_var s k = None \<and> cvMap_var s'' k = Some default_CV)"
    by auto
qed

lemma infoMap_index_snd:
  "snd (infoMap_index s k) =
     (if infoMap_var s k = None then s\<lparr>infoMap_var := (infoMap_var s)(k \<mapsto> default_CVTermInfo)\<rparr> else s)"
  by (simp add: infoMap_index_def split: option.splits)

lemma cvMap_index_snd:
  "snd (cvMap_index s k) =
     (if cvMap_var s k = None then s\<lparr>cvMap_var := (cvMap_var s)(k \<mapsto> default_CV)\<rparr> else s)"
  by (simp add: cvMap_index_def split: option.splits)

lemma infoMap_index_fst:
  "infoMap_var s k = None \<Longrightarrow> fst (infoMap_index s k) = default_CVTermInfo"
  by (simp add: infoMap_index_def)

lemma infoMap_index_extends: "state_extends s (snd (infoMap_index s k))"
  by (simp add: infoMap_index_snd state_extends_def)

lemma cvMap_index_extends: "state_extends s (snd (cvMap_index s k))"
  by (simp add: cvMap_index_snd state_extends_def)

lemma state_extends_flag: "state_extends s s' \<Longrightarrow> initialized_flag s' = initialized_flag s"
  by (simp add: state_extends_def)

lemma cvIsA_extends:
  "initialized_flag s \<Longrightarrow> cvIsA depth T s child parent = Some (b, s') \<Longrightarrow> state_extends s s'"
  "initialized_flag s \<Longrightarrow> cvIsA_loop depth T s its parent = Some (b, s') \<Longrightarrow> state_extends s s'"
proof (induction depth T s child parent and depth T s its parent arbitrary: b s' and b s'
    rule: cvIsA_cvIsA_loop.induct)
  case (1 T s child parent)
  then show ?case by simp
next
  case (2 depth T s child parent)
  show ?case
  proof (cases "child = parent")
    case True
    then show ?thesis using "2.prems" by simp
  next
    case False
    obtain info s1 where c: "cvTermInfo T s child = (info, s1)"
      by (cases "cvTermInfo T s child")
    then have i: "infoMap_index s child = (info, s1)"
      using "2.prems"(1) by (simp add: cvTermInfo_initialized)
    have e1: "state_extends s s1"
      using infoMap_index_extends [of s child] i by simp
    then have f1: "initialized_flag s1"
      using "2.prems"(1) by (simp add: state_extends_flag)
    have "cvIsA_loop depth T s1 (CVTermInfo_parentsIsA info) parent = Some (b, s')"
      using "2.prems"(2) False c by simp
    with "2.IH" [OF False c [symmetric] refl f1] have "state_extends s1 s'" .
    with e1 show ?thesis by (rule state_extends_trans)
  qed
next
  case (3 depth T s parent)
  then show ?case by simp
next
  case (4 depth T s it its parent)
  from "4.prems"(2) obtain r s1 where c: "cvIsA depth T s it parent = Some (r, s1)"
    by (auto split: option.splits)
  have e1: "state_extends s s1"
    using "4.IH"(1) [OF "4.prems"(1) c] .
  then have f1: "initialized_flag s1"
    using "4.prems"(1) by (simp add: state_extends_flag)
  show ?case
  proof (cases r)
    case True
    then show ?thesis using "4.prems"(2) c e1 by simp
  next
    case False
    then have "cvIsA_loop depth T s1 its parent = Some (b, s')"
      using "4.prems"(2) c by simp
    with "4.IH"(2) [OF c refl _ f1] False have "state_extends s1 s'" by simp
    with e1 show ?thesis by (rule state_extends_trans)
  qed
qed

lemma cvTermInfo_string_extends:
  assumes "initialized_flag s"
  shows "state_extends s (snd (cvTermInfo_string ulong_max T s ident))"
  using assms infoMap_index_extends [of s]
  by (auto simp: cvTermInfo_string_def Let_def split: prod.splits sum.splits)
    (metis snd_conv)+

subsection \<open>The example, evaluated\<close>

lemma cvMap_modify_None [simp]:
  "cvMap_var (cvMap_modify k f s) c = None \<longleftrightarrow> c \<noteq> k \<and> cvMap_var s c = None"
  by (simp add: cvMap_modify_def cvMap_index_def split: option.splits)

lemma infoMap_modify_cvMap [simp]: "cvMap_var (fold (\<lambda>it. infoMap_modify (g it) (h it)) xs s) = cvMap_var s"
  by (induction xs arbitrary: s) simp_all

lemma fold_initialize_termInfo_cvMap [simp]: "cvMap_var (fold initialize_termInfo xs s) = cvMap_var s"
  by (induction xs arbitrary: s) (simp_all add: initialize_termInfo_def)

lemma fold_initialize_cv_None:
  "cvMap_var (fold initialize_cv xs s) c = None \<longleftrightarrow> c \<notin> fst ` set xs \<and> cvMap_var s c = None"
  by (induction xs arbitrary: s) (auto simp: initialize_cv_def)

lemma initialize_cvMap_None:
  "cvMap_var (initialize T s) c = None \<longleftrightarrow>
     c \<noteq> ''MS'' \<and> c \<noteq> ''UO'' \<and> c \<notin> fst ` set (cvMap_assignments T) \<and> cvMap_var s c = None"
  by (simp add: initialize_eq fold_initialize_cv_None initialize_isA_fold initialize_partOf_fold
      initialize_synonym_fold) blast

lemma example_infoMap:
  "infoMap_var (initialize example_tables start) k =
     (if k = - 1 then
        Some \<lparr>CVTermInfo_cvid = - 1, CVTermInfo_id = ''??:0000000'',
              CVTermInfo_name = ''CVID_Unknown'', CVTermInfo_def = ''CVID_Unknown'',
              CVTermInfo_parentsIsA = [], CVTermInfo_parentsPartOf = [],
              CVTermInfo_exactSynonyms = [''Unknown'']\<rparr>
      else if k = 1 then
        Some \<lparr>CVTermInfo_cvid = 1, CVTermInfo_id = ''MS:0000001'',
              CVTermInfo_name = ''mass spectrum'', CVTermInfo_def = ''d1'',
              CVTermInfo_parentsIsA = [], CVTermInfo_parentsPartOf = [],
              CVTermInfo_exactSynonyms = [''ms x'']\<rparr>
      else if k = 2 then
        Some \<lparr>CVTermInfo_cvid = 2, CVTermInfo_id = ''MS:0000002'',
              CVTermInfo_name = ''b'', CVTermInfo_def = [],
              CVTermInfo_parentsIsA = [1], CVTermInfo_parentsPartOf = [],
              CVTermInfo_exactSynonyms = []\<rparr>
      else if k = 100000001 then
        Some \<lparr>CVTermInfo_cvid = 100000001, CVTermInfo_id = ''UO:0000001'',
              CVTermInfo_name = ''second'', CVTermInfo_def = ''d1'',
              CVTermInfo_parentsIsA = [], CVTermInfo_parentsPartOf = [],
              CVTermInfo_exactSynonyms = [''sec'']\<rparr>
      else None)"
  by (simp add: initialize_eq example_tables_def initialize_cv_def
      initialize_isA_def initialize_partOf_def initialize_synonym_def initialize_termInfo_def
      infoMap_modify_def infoMap_index_def start_def default_CVTermInfo_def)

lemma example_cvids: "cvids_var (initialize example_tables start) = [- 1, 1, 2, 100000001]"
  by (simp add: initialize_cvids example_tables_def start_def)

lemma example_cvMap_XX: "cvMap_var (initialize example_tables start) ''XX'' = None"
  by (simp add: initialize_cvMap_None example_tables_def start_def)

lemma example_isa_parents:
  "isa_parents (ensure_initialized example_tables start) c = (if c = 2 then [1] else [])"
  by (simp add: ensure_initialized_start isa_parents_def example_infoMap)

lemma replicate6: "replicate 6 c = [c, c, c, c, c, c]"
  by (simp add: numeral_eq_Suc)

lemma example_generateFiles: "generateFiles example_obos = Some example_artifact"
  by (simp add: example_obos_def example_artifact_def generateFiles_def writeCpp_relations_def
      writeCpp_relation_def termMap_def writeHpp_enum_def writeHpp_obo_def writeHpp_term_def
      enumName_term_def enumName_def toAllowableChar_def isalnum_def enumValue_def
      enumBlockSize_def writeCpp_termInfos_def writeCpp_termInfo_def setw7_fill0_def
      escape_copy_def writeCpp_synonyms_def writeCpp_cvMap_def header_version_def
      regex_match_version_def regex_match_date_def isspace_def writeCpp_oboPrefixes_def
      enumerate_eq_zip replicate6)

lemma example_compile: "compile (\<lambda>text. text) example_artifact = Some example_tables"
  by (simp add: example_artifact_def example_tables_def compile_def compile_termInfo_def
      compile_pair_def compile_synonym_def)

lemma example_term_codes: "term_codes example_obos = [1, 2, 100000001]"
  by (simp add: term_codes_def example_obos_def enumerate_eq_zip enumValue_def enumBlockSize_def)

subsection \<open>Lookups that do not resolve, and the example\<close>

lemma example_matched: "c_str ''MS'' \<in> set (oboPrefixes_tab example_tables)"
  by (simp add: c_str_def example_tables_def)

lemma example_MS_index: "find_if_StringEquals (oboPrefixes_tab example_tables) (c_str ''MS'') = 0"
  by (simp add: find_if_StringEquals_def c_str_def example_tables_def)

text \<open>
  C3, as the code has it. \<open>cvTermInfo(cvid)\<close> for a code that no table names returns a
  default-constructed record: its \<open>cvid\<close> is \<open>CVID_Unknown\<close> and its strings and lists
  are empty; the record is inserted under the code. \<open>cvTermInfo(id)\<close> for a string with
  one colon whose prefix is none of \<open>oboPrefixes_\<close> returns what
  \<open>cvTermInfo(CVID_Unknown)\<close> returns, the record of the row of \<open>CVID_Unknown\<close>.
\<close>

theorem cvTermInfo_unresolved:
  "(code \<notin> table_keys T \<longrightarrow> cvTermInfo T start code
       = (default_CVTermInfo, (initialize T start)\<lparr>infoMap_var :=
            (infoMap_var (initialize T start))(code \<mapsto> default_CVTermInfo)\<rparr>))
   \<and> (initialized_flag s \<and> infoMap_var s code = None \<longrightarrow>
         fst (cvTermInfo T s code) = default_CVTermInfo)
   \<and> CVTermInfo_cvid default_CVTermInfo = CVID_Unknown
   \<and> CVTermInfo_id default_CVTermInfo = []
   \<and> (CHR '':'' \<notin> set prefix \<and> CHR '':'' \<notin> set cvidStr
        \<and> c_str prefix \<notin> set (oboPrefixes_tab T) \<longrightarrow>
         cvTermInfo_string ulong_max T s (prefix @ '':'' @ cvidStr)
           = (Inr (fst (cvTermInfo T s CVID_Unknown)), snd (cvTermInfo T s CVID_Unknown)))"
proof -
  have 1: "cvTermInfo T start code
       = (default_CVTermInfo, (initialize T start)\<lparr>infoMap_var :=
            (infoMap_var (initialize T start))(code \<mapsto> default_CVTermInfo)\<rparr>)"
    if "code \<notin> table_keys T"
  proof -
    have "infoMap_var (initialize T start) code = None"
      using that by (simp add: initialize_None start_def)
    then show ?thesis
      by (simp add: cvTermInfo_def ensure_initialized_start infoMap_index_def)
  qed
  have 2: "fst (cvTermInfo T s code) = default_CVTermInfo"
    if "initialized_flag s" "infoMap_var s code = None"
    using that by (simp add: cvTermInfo_def infoMap_index_def)
  have 3: "CVTermInfo_cvid default_CVTermInfo = CVID_Unknown" "CVTermInfo_id default_CVTermInfo = []"
    by (simp_all add: default_CVTermInfo_def CVID_Unknown_def)
  show ?thesis
    using 1 2 3 cvTermInfo_string_unmatched [of prefix cvidStr T ulong_max s] by blast
qed

theorem cvTermInfo_unresolved_witness:
  "fst (cvTermInfo example_tables start 7) = default_CVTermInfo
   \<and> fst (cvTermInfo_string (2 ^ 64 - 1) example_tables start ''BADPREFIX:0000001'')
       = Inr \<lparr>CVTermInfo_cvid = - 1, CVTermInfo_id = ''??:0000000'',
              CVTermInfo_name = ''CVID_Unknown'', CVTermInfo_def = ''CVID_Unknown'',
              CVTermInfo_parentsIsA = [], CVTermInfo_parentsPartOf = [],
              CVTermInfo_exactSynonyms = [''Unknown'']\<rparr>"
proof -
  have k: "7 \<notin> table_keys example_tables"
    by (simp add: table_keys_def example_tables_def)
  have p: "c_str ''BADPREFIX'' \<notin> set (oboPrefixes_tab example_tables)"
    by (simp add: c_str_def example_tables_def)
  have u: "fst (cvTermInfo example_tables start CVID_Unknown)
      = \<lparr>CVTermInfo_cvid = - 1, CVTermInfo_id = ''??:0000000'',
              CVTermInfo_name = ''CVID_Unknown'', CVTermInfo_def = ''CVID_Unknown'',
              CVTermInfo_parentsIsA = [], CVTermInfo_parentsPartOf = [],
              CVTermInfo_exactSynonyms = [''Unknown'']\<rparr>"
    by (simp add: cvTermInfo_def ensure_initialized_start infoMap_index_def example_infoMap
        CVID_Unknown_def)
  show ?thesis
    using cvTermInfo_unresolved [of 7 example_tables start "''BADPREFIX''" "''0000001''" "2 ^ 64 - 1"]
      k p u
    by simp
qed

text \<open>
  The claim as it stands fails for a code: 7 is in no table, and its record has an empty
  id, while the record of \<open>CVID_Unknown\<close> has the id of its row.
\<close>

theorem cvTermInfo_unknown_code_counterexample:
  "7 \<notin> table_keys example_tables
   \<and> CVTermInfo_id (fst (cvTermInfo example_tables start 7)) = []
   \<and> CVTermInfo_id (fst (cvTermInfo example_tables start CVID_Unknown)) = ''??:0000000''
   \<and> fst (cvTermInfo example_tables start 7) \<noteq> fst (cvTermInfo example_tables start CVID_Unknown)"
proof -
  have a: "CVTermInfo_id (fst (cvTermInfo example_tables start 7)) = []"
    by (simp add: cvTermInfo_def ensure_initialized_start infoMap_index_def example_infoMap
        default_CVTermInfo_def)
  have b: "CVTermInfo_id (fst (cvTermInfo example_tables start CVID_Unknown)) = ''??:0000000''"
    by (simp add: cvTermInfo_def ensure_initialized_start infoMap_index_def example_infoMap
        CVID_Unknown_def)
  have "7 \<notin> table_keys example_tables"
    by (simp add: table_keys_def example_tables_def)
  moreover have "fst (cvTermInfo example_tables start 7) \<noteq> fst (cvTermInfo example_tables start CVID_Unknown)"
    using a b by auto
  ultimately show ?thesis using a b by simp
qed

lemma stringToCVID_1abc: "1 \<le> ulong_max \<Longrightarrow> stringToCVID ulong_max ''1abc'' = Inr 1"
  by (simp add: stringToCVID_def strtoul_def strtoul_digits_def strtoul_sign_def c_str_def
      isspace_def isdigit_def decimal_def)


theorem cvids_all_codes_witness:
  "fst (cvids example_tables start) = [- 1, 1, 2, 100000001]"
  using cvids_all_codes [OF example_generateFiles example_compile]
  by (simp add: example_term_codes CVID_Unknown_def)

text \<open>
  The claim as it stands fails: the terms of the example have the codes 1, 2 and
  100000001, and \<open>cvids()\<close> returns \<open>CVID_Unknown\<close> in front of them.
\<close>

theorem cvids_unknown_first_counterexample:
  "term_codes example_obos = [1, 2, 100000001]
   \<and> fst (cvids example_tables start) = [- 1, 1, 2, 100000001]"
  by (simp add: example_term_codes cvids_def ensure_initialized_start example_cvids Let_def)

section \<open>The numeric part of an accession\<close>

text \<open>What \<open>stringToCVID\<close> returns, in terms of the sign and the digits that \<open>strtoul\<close> reads.\<close>

lemma stringToCVID_eq:
  "stringToCVID ulong_max str =
     (if strtoul_digits (c_str str) = [] \<or> ulong_max < decimal (strtoul_digits (c_str str))
      then Inl Bad_lexical_cast
      else Inr ((if strtoul_sign (c_str str) \<noteq> [] \<and> hd (strtoul_sign (c_str str)) = CHR ''-''
                 then (ulong_max + 1 - decimal (strtoul_digits (c_str str))) mod (ulong_max + 1)
                 else decimal (strtoul_digits (c_str str))) mod 2 ^ 32))"
  by (auto simp add: stringToCVID_def strtoul_def Let_def)

lemma isdigit_not_special:
  "isdigit c \<Longrightarrow> \<not> isspace c \<and> c \<noteq> CHR ''-'' \<and> c \<noteq> CHR ''+'' \<and> c \<noteq> CHR 0x00 \<and> c \<noteq> CHR '':''"
  by (auto simp: isdigit_def isspace_def Let_def)

lemma c_str_digits:
  "\<forall>c\<in>set ds. isdigit c \<Longrightarrow> c_str (ds @ rest) = ds @ c_str rest"
  by (induction ds) (auto simp: c_str_def dest: isdigit_not_special)

lemma c_str_hd: "c_str rest = [] \<or> hd (c_str rest) = hd rest"
  by (cases rest) (auto simp: c_str_def)

lemma takeWhile_digits:
  "\<forall>c\<in>set ds. isdigit c \<Longrightarrow> r = [] \<or> \<not> isdigit (hd r) \<Longrightarrow> takeWhile isdigit (ds @ r) = ds"
  by (cases r) (auto simp: takeWhile_tail)

lemma strtoul_leading_digits:
  assumes "ds \<noteq> []" and "\<forall>c\<in>set ds. isdigit c" and "rest = [] \<or> \<not> isdigit (hd rest)"
  shows "strtoul_sign (c_str (ds @ rest)) = ds @ c_str rest"
    and "strtoul_digits (c_str (ds @ rest)) = ds"
proof -
  obtain d ds' where ds: "ds = d # ds'" using assms(1) by (cases ds) auto
  have d: "isdigit d" using assms(2) ds by simp
  have r: "c_str rest = [] \<or> \<not> isdigit (hd (c_str rest))"
  proof (cases rest)
    case Nil
    then show ?thesis by (simp add: c_str_def)
  next
    case (Cons x xs)
    then show ?thesis using assms(3) c_str_hd [of rest] by auto
  qed
  have "dropWhile isspace (ds @ c_str rest) = ds @ c_str rest"
    using isdigit_not_special [OF d] by (simp add: ds)
  then show 1: "strtoul_sign (c_str (ds @ rest)) = ds @ c_str rest"
    by (simp only: c_str_digits [OF assms(2)] strtoul_sign_def)
  have "hd (ds @ c_str rest) = d" using ds by simp
  then show "strtoul_digits (c_str (ds @ rest)) = ds"
    unfolding strtoul_digits_def Let_def 1
    using isdigit_not_special [OF d] takeWhile_digits [OF assms(2) r] ds by simp
qed

lemma stringToCVID_trailing:
  assumes "ds \<noteq> []" and "\<forall>c\<in>set ds. isdigit c" and "rest = [] \<or> \<not> isdigit (hd rest)"
  shows "stringToCVID ulong_max (ds @ rest) = stringToCVID ulong_max ds"
proof -
  obtain d ds' where ds: "ds = d # ds'" using assms(1) by (cases ds) auto
  have d: "isdigit d" using assms(2) ds by simp
  have a: "strtoul_sign (c_str (ds @ rest)) = ds @ c_str rest" "strtoul_digits (c_str (ds @ rest)) = ds"
    using strtoul_leading_digits [OF assms] by simp_all
  have b: "strtoul_sign (c_str ds) = ds" "strtoul_digits (c_str ds) = ds"
    using strtoul_leading_digits [OF assms(1,2), of "[]"] by (simp_all add: c_str_def)
  have h: "hd (ds @ c_str rest) = d" "hd ds = d" using ds by simp_all
  show ?thesis
    unfolding stringToCVID_eq a b h using isdigit_not_special [OF d] by simp
qed


lemma cvTermInfo_string_trailing:
  assumes "CHR '':'' \<notin> set prefix" and "CHR '':'' \<notin> set rest"
    and "ds \<noteq> []" and "\<forall>c\<in>set ds. isdigit c" and "rest = [] \<or> \<not> isdigit (hd rest)"
  shows "cvTermInfo_string ulong_max T s (prefix @ '':'' @ ds @ rest)
       = cvTermInfo_string ulong_max T s (prefix @ '':'' @ ds)"
proof -
  have c1: "CHR '':'' \<notin> set ds"
    using assms(4) isdigit_not_special by blast
  then have c2: "CHR '':'' \<notin> set (ds @ rest)"
    using assms(2) by simp
  show ?thesis
  proof (cases "c_str prefix \<in> set (oboPrefixes_tab T)")
    case True
    show ?thesis
      unfolding cvTermInfo_string_matched [OF assms(1) c2 True]
        cvTermInfo_string_matched [OF assms(1) c1 True]
        stringToCVID_trailing [OF assms(3,4,5)] ..
  next
    case False
    show ?thesis
      unfolding cvTermInfo_string_unmatched [OF assms(1) c2 False]
        cvTermInfo_string_unmatched [OF assms(1) c1 False] ..
  qed
qed

text \<open>
  C4, as the code has it. A string that does not have exactly one colon gives the
  \<open>runtime_error\<close>. For a string with one colon whose prefix is one of \<open>oboPrefixes_\<close>,
  the lookup ends with \<open>bad_lexical_cast\<close> exactly when the second part has no decimal
  digit after its leading white space and sign, or its number is above the largest
  \<open>unsigned long\<close>. What follows the leading digits is not looked at: the lookup gives
  the same with it and without it. \<open>MS:notanumber\<close> gives \<open>bad_lexical_cast\<close>.
\<close>

theorem cvTermInfo_string_errors:
  "(length (filter (\<lambda>c. c = CHR '':'') ident) \<noteq> 1 \<longrightarrow>
      fst (cvTermInfo_string ulong_max T s ident)
        = Inl (Runtime_error (''[cvinfo] Error splitting id '' @ [CHR 0x22] @ ident @ [CHR 0x22]
                 @ '' into prefix and numeric components'')))
   \<and> (CHR '':'' \<notin> set prefix \<and> CHR '':'' \<notin> set cvidStr
        \<and> c_str prefix \<in> set (oboPrefixes_tab T) \<longrightarrow>
         (fst (cvTermInfo_string ulong_max T s (prefix @ '':'' @ cvidStr)) = Inl Bad_lexical_cast
            \<longleftrightarrow> strtoul_digits (c_str cvidStr) = []
                \<or> ulong_max < decimal (strtoul_digits (c_str cvidStr))))
   \<and> (CHR '':'' \<notin> set prefix \<and> CHR '':'' \<notin> set rest \<and> ds \<noteq> [] \<and> (\<forall>c\<in>set ds. isdigit c)
        \<and> (rest = [] \<or> \<not> isdigit (hd rest)) \<longrightarrow>
         cvTermInfo_string ulong_max T s (prefix @ '':'' @ ds @ rest)
           = cvTermInfo_string ulong_max T s (prefix @ '':'' @ ds))
   \<and> fst (cvTermInfo_string ulong_max example_tables s ''MS:notanumber'') = Inl Bad_lexical_cast"
proof -
  have 1: "fst (cvTermInfo_string ulong_max T s ident)
        = Inl (Runtime_error (''[cvinfo] Error splitting id '' @ [CHR 0x22] @ ident @ [CHR 0x22]
                 @ '' into prefix and numeric components''))"
    if "length (filter (\<lambda>c. c = CHR '':'') ident) \<noteq> 1"
    using cvTermInfo_string_format [OF that] by simp
  have 2: "fst (cvTermInfo_string ulong_max T s (prefix @ '':'' @ cvidStr)) = Inl Bad_lexical_cast
            \<longleftrightarrow> strtoul_digits (c_str cvidStr) = []
                \<or> ulong_max < decimal (strtoul_digits (c_str cvidStr))"
    if "CHR '':'' \<notin> set prefix" "CHR '':'' \<notin> set cvidStr"
      "c_str prefix \<in> set (oboPrefixes_tab T)"
      for T s prefix cvidStr
  proof -
    have "fst (cvTermInfo_string ulong_max T s (prefix @ '':'' @ cvidStr)) = Inl Bad_lexical_cast
        \<longleftrightarrow> stringToCVID ulong_max cvidStr = Inl Bad_lexical_cast"
      unfolding cvTermInfo_string_matched [OF that]
      by (cases "stringToCVID ulong_max cvidStr") (auto simp: stringToCVID_eq split: if_splits)
    then show ?thesis by (simp add: stringToCVID_error_iff)
  qed
  have "strtoul_digits (c_str ''notanumber'') = []"
    by (simp add: strtoul_digits_def strtoul_sign_def c_str_def isspace_def isdigit_def)
  then have 3: "fst (cvTermInfo_string ulong_max example_tables s ''MS:notanumber'') = Inl Bad_lexical_cast"
    using 2 [of "''MS''" "''notanumber''" example_tables s] example_matched by simp
  have 4: "cvTermInfo_string ulong_max T s (prefix @ '':'' @ ds @ rest)
           = cvTermInfo_string ulong_max T s (prefix @ '':'' @ ds)"
    if "CHR '':'' \<notin> set prefix" "CHR '':'' \<notin> set rest" "ds \<noteq> []" "\<forall>c\<in>set ds. isdigit c"
      "rest = [] \<or> \<not> isdigit (hd rest)"
    using that by (rule cvTermInfo_string_trailing)
  show ?thesis
    using 1 2 [of prefix cvidStr T s] 3 4 by blast
qed

theorem cvTermInfo_string_errors_witness:
  "fst (cvTermInfo_string (2 ^ 64 - 1) example_tables start ''MS:1:2'')
     = Inl (Runtime_error (''[cvinfo] Error splitting id '' @ [CHR 0x22] @ ''MS:1:2'' @ [CHR 0x22]
                 @ '' into prefix and numeric components''))
   \<and> fst (cvTermInfo_string (2 ^ 64 - 1) example_tables start ''UO: -x'') = Inl Bad_lexical_cast
   \<and> cvTermInfo_string (2 ^ 64 - 1) example_tables start ''MS:2 mg''
       = cvTermInfo_string (2 ^ 64 - 1) example_tables start ''MS:2''"
proof -
  have p: "c_str ''UO'' \<in> set (oboPrefixes_tab example_tables)"
    by (simp add: c_str_def example_tables_def)
  have d: "strtoul_digits (c_str '' -x'') = []"
    by (simp add: strtoul_digits_def strtoul_sign_def c_str_def isspace_def isdigit_def)
  have g: "\<forall>c\<in>set ''2''. isdigit c" "\<not> isdigit (hd '' mg'')"
    by (simp_all add: isdigit_def)
  have a: "fst (cvTermInfo_string (2 ^ 64 - 1) example_tables start ''MS:1:2'')
     = Inl (Runtime_error (''[cvinfo] Error splitting id '' @ [CHR 0x22] @ ''MS:1:2'' @ [CHR 0x22]
                 @ '' into prefix and numeric components''))"
    using cvTermInfo_string_errors [of "''MS:1:2''" "2 ^ 64 - 1" example_tables start "''UO''" "'' -x''" "'' mg''" "''2''"]
    by simp
  have b: "fst (cvTermInfo_string (2 ^ 64 - 1) example_tables start ''UO: -x'') = Inl Bad_lexical_cast"
    using cvTermInfo_string_errors [of "''MS:1:2''" "2 ^ 64 - 1" example_tables start "''UO''" "'' -x''" "'' mg''" "''2''"]
      p d by simp
  have c: "cvTermInfo_string (2 ^ 64 - 1) example_tables start ''MS:2 mg''
       = cvTermInfo_string (2 ^ 64 - 1) example_tables start ''MS:2''"
    using cvTermInfo_string_errors [of "''MS:1:2''" "2 ^ 64 - 1" example_tables start "''MS''" "'' -x''" "'' mg''" "''2''"]
      g by simp
  from a b c show ?thesis by simp
qed

text \<open>
  The claim as it stands fails when the text that is not a number follows digits:
  \<open>strtoul\<close> converts the digits and the rest is not looked at, so \<open>MS:1abc\<close> gives the
  record of MS:0000001.
\<close>

theorem cvTermInfo_string_trailing_counterexample:
  "fst (cvTermInfo_string (2 ^ 64 - 1) example_tables start ''MS:1abc'')
     = Inr \<lparr>CVTermInfo_cvid = 1, CVTermInfo_id = ''MS:0000001'',
            CVTermInfo_name = ''mass spectrum'', CVTermInfo_def = ''d1'',
            CVTermInfo_parentsIsA = [], CVTermInfo_parentsPartOf = [],
            CVTermInfo_exactSynonyms = [''ms x'']\<rparr>"
proof -
  have "cvTermInfo_string (2 ^ 64 - 1) example_tables start (''MS'' @ '':'' @ ''1abc'')
      = (Inr (fst (cvTermInfo example_tables start 1)), snd (cvTermInfo example_tables start 1))"
    using cvTermInfo_string_matched [of "''MS''" "''1abc''" example_tables "2 ^ 64 - 1" start]
      example_matched
    by (simp add: stringToCVID_1abc [of "2 ^ 64 - 1", simplified] example_MS_index enumBlockSize_def
        to_CVID_def)
  moreover have "fst (cvTermInfo example_tables start 1)
      = \<lparr>CVTermInfo_cvid = 1, CVTermInfo_id = ''MS:0000001'',
            CVTermInfo_name = ''mass spectrum'', CVTermInfo_def = ''d1'',
            CVTermInfo_parentsIsA = [], CVTermInfo_parentsPartOf = [],
            CVTermInfo_exactSynonyms = [''ms x'']\<rparr>"
    by (simp add: cvTermInfo_def ensure_initialized_start infoMap_index_def example_infoMap)
  ultimately show ?thesis by simp
qed








section \<open>The synonyms, entry by entry\<close>

lemma filter_alias_term:
  "filter is_alias (writeHpp_term obo index it) =
     (if OBO_prefix obo = ''MS''
      then map (\<lambda>syn. (enumName (Term_prefix it) syn, Name_init (enumName_term it))) (Term_exactSynonyms it)
      else [])"
  by (simp add: writeHpp_term_def is_alias_def filter_map comp_def)

lemma filter_not_alias_term:
  "filter (\<lambda>e. \<not> is_alias e) (writeHpp_term obo index it) =
     [(enumName_term it, Int_init (uint (enumValue it index)))]"
  by (simp add: writeHpp_term_def is_alias_def filter_map comp_def)

lemma filter_alias_obo:
  "filter is_alias (writeHpp_obo p) =
     (if OBO_prefix (snd p) = ''MS'' then synonym_aliases (snd p) else [])"
  by (simp add: writeHpp_obo_def filter_concat comp_def filter_alias_term synonym_aliases_def)

lemma filter_not_alias_obo:
  "filter (\<lambda>e. \<not> is_alias e) (writeHpp_obo p) = term_enumerators p"
  by (simp add: writeHpp_obo_def filter_concat comp_def filter_not_alias_term term_enumerators_def)

lemma map_enumerate_snd: "map (\<lambda>p. g (snd p)) (enumerate n xs) = map g xs"
proof -
  have "map (\<lambda>p. g (snd p)) (enumerate n xs) = map g (map snd (enumerate n xs))"
    unfolding map_map comp_def ..
  then show ?thesis by (simp only: map_snd_enumerate)
qed

lemma is_alias_unknown: "\<not> is_alias (''CVID_Unknown'', Int_init (- 1))"
  by (simp add: is_alias_def)

lemma filter_alias_enum:
  "filter is_alias (writeHpp_enum obos) =
     concat (map (\<lambda>obo. if OBO_prefix obo = ''MS'' then synonym_aliases obo else []) obos)"
proof -
  have "filter is_alias (writeHpp_enum obos) =
      concat (map (\<lambda>p. if OBO_prefix (snd p) = ''MS'' then synonym_aliases (snd p) else [])
                (enumerate 0 obos))"
    by (simp add: writeHpp_enum_def filter_concat comp_def filter_alias_obo is_alias_unknown)
  then show ?thesis
    by (simp only: map_enumerate_snd [where g = "\<lambda>obo. if OBO_prefix obo = ''MS'' then synonym_aliases obo else []"])
qed

lemma filter_not_alias_enum:
  "filter (\<lambda>e. \<not> is_alias e) (writeHpp_enum obos) =
     (''CVID_Unknown'', Int_init (- 1)) # concat (map term_enumerators (enumerate 0 obos))"
  by (simp add: writeHpp_enum_def filter_concat comp_def filter_not_alias_obo is_alias_unknown)

lemma writeCpp_synonyms_rows:
  "writeCpp_synonyms obos = (''CVID_Unknown'', ''Unknown'') # concat (map synonym_rows obos)"
  by (simp add: writeCpp_synonyms_def synonym_rows_def [abs_def])

text \<open>
  C7, as the code has it. The enumerators that stand for synonyms are, in their order, one
  for each exact synonym of each term of the files whose prefix is MS, and none for the
  other files; the remaining enumerators are \<open>CVID_Unknown\<close> and one for each term. The
  table of synonyms is the row of \<open>CVID_Unknown\<close> followed by one row for every exact
  synonym of every term of every file, whatever its prefix. The last two parts say the
  same of the members of the two lists.
\<close>

theorem synonyms_enum_MS_only_table_all:
  "filter is_alias (writeHpp_enum obos) =
     concat (map (\<lambda>obo. if OBO_prefix obo = ''MS'' then synonym_aliases obo else []) obos)
   \<and> filter (\<lambda>e. \<not> is_alias e) (writeHpp_enum obos) =
       (''CVID_Unknown'', Int_init (- 1)) # concat (map term_enumerators (enumerate 0 obos))
   \<and> writeCpp_synonyms obos = (''CVID_Unknown'', ''Unknown'') # concat (map synonym_rows obos)
   \<and> ((n, Name_init m) \<in> set (writeHpp_enum obos) \<longleftrightarrow>
      (\<exists>obo\<in>set obos. OBO_prefix obo = ''MS''
         \<and> (\<exists>it\<in>set (OBO_terms obo). \<exists>syn\<in>set (Term_exactSynonyms it).
               n = enumName (Term_prefix it) syn \<and> m = enumName_term it)))
   \<and> ((c, syn) \<in> set (writeCpp_synonyms obos) \<longleftrightarrow>
        (c = ''CVID_Unknown'' \<and> syn = ''Unknown'')
        \<or> (\<exists>obo\<in>set obos. \<exists>it\<in>set (OBO_terms obo).
              syn \<in> set (Term_exactSynonyms it) \<and> c = enumName_term it))"
  using filter_alias_enum [of obos] filter_not_alias_enum [of obos] writeCpp_synonyms_rows [of obos]
    writeHpp_enum_alias [of n m obos] writeCpp_synonyms_iff [of c syn obos]
  by blast

theorem synonyms_enum_MS_only_table_all_witness:
  "filter is_alias (writeHpp_enum example_obos) = [(''MS_ms_x'', Name_init ''MS_mass_spectrum'')]
   \<and> writeCpp_synonyms example_obos =
       [(''CVID_Unknown'', ''Unknown''), (''MS_mass_spectrum'', ''ms x''), (''UO_second'', ''sec'')]
   \<and> (''UO_sec'', Name_init ''UO_second'') \<notin> set (writeHpp_enum example_obos)
   \<and> (''UO_second'', ''sec'') \<in> set (writeCpp_synonyms example_obos)"
proof -
  note t = synonyms_enum_MS_only_table_all [of example_obos "''UO_sec''" "''UO_second''"
      "''UO_second''" "''sec''"]
  have "filter is_alias (writeHpp_enum example_obos) =
      concat (map (\<lambda>obo. if OBO_prefix obo = ''MS'' then synonym_aliases obo else []) example_obos)"
    using t by blast
  then have a: "filter is_alias (writeHpp_enum example_obos)
      = [(''MS_ms_x'', Name_init ''MS_mass_spectrum'')]"
    by (simp add: example_obos_def synonym_aliases_def enumName_term_def enumName_def
        toAllowableChar_def isalnum_def)
  have "writeCpp_synonyms example_obos =
      (''CVID_Unknown'', ''Unknown'') # concat (map synonym_rows example_obos)"
    using t by blast
  then have b: "writeCpp_synonyms example_obos =
       [(''CVID_Unknown'', ''Unknown''), (''MS_mass_spectrum'', ''ms x''), (''UO_second'', ''sec'')]"
    by (simp add: example_obos_def synonym_rows_def enumName_term_def enumName_def
        toAllowableChar_def isalnum_def)
  have "(''UO_sec'', Name_init ''UO_second'') \<in> set (writeHpp_enum example_obos) \<longleftrightarrow>
      (\<exists>obo\<in>set example_obos. OBO_prefix obo = ''MS''
         \<and> (\<exists>it\<in>set (OBO_terms obo). \<exists>syn\<in>set (Term_exactSynonyms it).
               ''UO_sec'' = enumName (Term_prefix it) syn \<and> ''UO_second'' = enumName_term it))"
    using t by blast
  then have c: "(''UO_sec'', Name_init ''UO_second'') \<notin> set (writeHpp_enum example_obos)"
    by (simp add: example_obos_def enumName_term_def enumName_def toAllowableChar_def isalnum_def)
  have "(''UO_second'', ''sec'') \<in> set (writeCpp_synonyms example_obos) \<longleftrightarrow>
        (''UO_second'' = ''CVID_Unknown'' \<and> ''sec'' = ''Unknown'')
        \<or> (\<exists>obo\<in>set example_obos. \<exists>it\<in>set (OBO_terms obo).
              ''sec'' \<in> set (Term_exactSynonyms it) \<and> ''UO_second'' = enumName_term it)"
    using t by blast
  then have d: "(''UO_second'', ''sec'') \<in> set (writeCpp_synonyms example_obos)"
    by (simp add: example_obos_def enumName_term_def enumName_def toAllowableChar_def isalnum_def)
  from a b c d show ?thesis by simp
qed

text \<open>
  The claim as it stands fails: the file unit.obo has the prefix UO, and the synonym of
  its term is a row of the table.
\<close>

theorem synonym_table_other_vocabulary_counterexample:
  "OBO_prefix (example_obos ! 1) = ''UO''
   \<and> Term_exactSynonyms (OBO_terms (example_obos ! 1) ! 0) = [''sec'']
   \<and> (enumName_term (OBO_terms (example_obos ! 1) ! 0), ''sec'') \<in> set (writeCpp_synonyms example_obos)"
  by (simp add: example_synonyms) (simp add: example_obos_def enumName_term_def enumName_def
      toAllowableChar_def isalnum_def)

section \<open>The version printed for a file\<close>

text \<open>
  C9. \<open>List.map_filter regex_match_version header\<close> lists, in the order of the header,
  what the lines that match the version pattern give. The version of a header is the
  first of them; when no line matches, the first of what the lines that match the date
  pattern give; when no line matches either, \<open>unknown\<close>. The generated file assigns to
  \<open>cvMap_\<close>, for each file in order, under its prefix, that version of its header. The
  header of the scenario gives its date, and a file with that header is printed with it.
\<close>

theorem header_version_first_match:
  "header_version header =
     (case List.map_filter regex_match_version header of
        w # _ \<Rightarrow> w
      | [] \<Rightarrow> (case List.map_filter regex_match_date header of
                 d # _ \<Rightarrow> d
               | [] \<Rightarrow> ''unknown''))
   \<and> writeCpp_cvMap obos =
          map (\<lambda>obo. (OBO_prefix obo,
                       case List.map_filter regex_match_version (OBO_header obo) of
                         w # _ \<Rightarrow> w
                       | [] \<Rightarrow> (case List.map_filter regex_match_date (OBO_header obo) of
                                  d # _ \<Rightarrow> d
                                | [] \<Rightarrow> ''unknown''))) obos
   \<and> (generateFiles obos = Some a \<longrightarrow>
        art_cvMap a =
          map (\<lambda>obo. (OBO_prefix obo,
                       case List.map_filter regex_match_version (OBO_header obo) of
                         w # _ \<Rightarrow> w
                       | [] \<Rightarrow> (case List.map_filter regex_match_date (OBO_header obo) of
                                  d # _ \<Rightarrow> d
                                | [] \<Rightarrow> ''unknown''))) obos)
   \<and> header_version [''format-version: 1.2'', ''date: 01:01:2020 00:00''] = ''01:01:2020''
   \<and> (OBO_header obo = [''format-version: 1.2'', ''date: 01:01:2020 00:00''] \<longrightarrow>
        writeCpp_cvMap [obo] = [(OBO_prefix obo, ''01:01:2020'')])"
proof -
  have 1: "header_version h =
     (case List.map_filter regex_match_version h of
        w # _ \<Rightarrow> w
      | [] \<Rightarrow> (case List.map_filter regex_match_date h of
                 d # _ \<Rightarrow> d
               | [] \<Rightarrow> ''unknown''))" for h
    using map_filter_version_nonempty [of h] map_filter_date_nonempty [of h]
    by (simp add: header_version_def version_loop_eq [of h "[]"] split: list.splits)
  have 2: "header_version [''format-version: 1.2'', ''date: 01:01:2020 00:00''] = ''01:01:2020''"
    by (simp add: header_version_def regex_match_version_def regex_match_date_def isspace_def)
  have 5: "writeCpp_cvMap obos =
          map (\<lambda>obo. (OBO_prefix obo,
                       case List.map_filter regex_match_version (OBO_header obo) of
                         w # _ \<Rightarrow> w
                       | [] \<Rightarrow> (case List.map_filter regex_match_date (OBO_header obo) of
                                  d # _ \<Rightarrow> d
                                | [] \<Rightarrow> ''unknown''))) obos"
    unfolding writeCpp_cvMap_def using 1 by simp
  have 3: "art_cvMap a =
          map (\<lambda>obo. (OBO_prefix obo,
                       case List.map_filter regex_match_version (OBO_header obo) of
                         w # _ \<Rightarrow> w
                       | [] \<Rightarrow> (case List.map_filter regex_match_date (OBO_header obo) of
                                  d # _ \<Rightarrow> d
                                | [] \<Rightarrow> ''unknown''))) obos"
    if "generateFiles obos = Some a"
  proof -
    have "art_cvMap a = writeCpp_cvMap obos"
      using that by (auto simp: generateFiles_def split: option.splits)
    then show ?thesis
      using 5 by simp
  qed
  have 4: "writeCpp_cvMap [obo] = [(OBO_prefix obo, ''01:01:2020'')]"
    if "OBO_header obo = [''format-version: 1.2'', ''date: 01:01:2020 00:00'']"
    using that 2 by (simp add: writeCpp_cvMap_def)
  show ?thesis
    using 1 [of header] 2 3 4 5 by blast
qed

theorem header_version_first_match_witness:
  "header_version [''format-version: 1.2'', ''date: 01:01:2020 00:00'',
      ''remark: version: 2.0.2'', ''remark: version: 3''] = ''2.0.2''
   \<and> header_version [''format-version: 1.2'', ''data-version: 7''] = ''unknown''
   \<and> art_cvMap example_artifact = [(''MS'', ''01:01:2020''), (''UO'', ''2.0'')]"
proof -
  have a: "header_version [''format-version: 1.2'', ''date: 01:01:2020 00:00'',
      ''remark: version: 2.0.2'', ''remark: version: 3''] = ''2.0.2''"
    using header_version_first_match [of "[''format-version: 1.2'', ''date: 01:01:2020 00:00'',
      ''remark: version: 2.0.2'', ''remark: version: 3'']" example_obos example_artifact "hd example_obos"]
    by (simp add: List.map_filter_simps regex_match_version_def regex_match_date_def isspace_def)
  have b: "header_version [''format-version: 1.2'', ''data-version: 7''] = ''unknown''"
    using header_version_first_match [of "[''format-version: 1.2'', ''data-version: 7'']"
        example_obos example_artifact "hd example_obos"]
    by (simp add: List.map_filter_simps regex_match_version_def regex_match_date_def isspace_def)
  have "art_cvMap example_artifact =
          map (\<lambda>obo. (OBO_prefix obo,
                       case List.map_filter regex_match_version (OBO_header obo) of
                         w # _ \<Rightarrow> w
                       | [] \<Rightarrow> (case List.map_filter regex_match_date (OBO_header obo) of
                                  d # _ \<Rightarrow> d
                                | [] \<Rightarrow> ''unknown''))) example_obos"
    using header_version_first_match [of "[]" example_obos example_artifact "hd example_obos"]
      example_generateFiles by blast
  then have c: "art_cvMap example_artifact = [(''MS'', ''01:01:2020''), (''UO'', ''2.0'')]"
    by (simp add: example_artifact_def)
  from a b c show ?thesis by simp
qed

section \<open>The is-a test, call by call\<close>

lemma cyclic_direct_parent: "2 \<in> set (isa_parents (ensure_initialized cyclic_tables start) 1)"
  by (simp add: ensure_initialized_start cyclic_parents)

text \<open>
  C2, as the code has it. \<open>cvIsA(x, x)\<close> is true for every code, from any state. When
  the is-a graph has no cycle, so that some rank decreases along every edge, and the
  depth of calls allowed is above the rank of the child, the call returns, and it returns
  true exactly when child and parent are equal or the call for some direct parent of the
  child returns true: exactly when the parent is reached from the child along is-a edges.
  So it is true for a direct parent and for a direct parent of a direct parent. The direct
  parents of a code are the second columns of its rows of \<open>relationsIsA_\<close>. Nothing
  guards against a cycle: with \<open>cyclic_tables\<close> the call for 1 and 2 returns at no depth.
\<close>

theorem cvIsA_recursion:
  "cvIsA_result (Suc d) T s x x = Some True
   \<and> ((\<forall>c q. q \<in> set (isa_parents (ensure_initialized T s) c) \<longrightarrow> rank q < rank c)
        \<and> rank child < depth \<longrightarrow>
        cvIsA_result depth T s child parent =
           Some (child = parent
                 \<or> (\<exists>p\<in>set (isa_parents (ensure_initialized T s) child).
                       cvIsA_result depth T (ensure_initialized T s) p parent = Some True))
        \<and> cvIsA_result depth T s child parent
            = Some ((child, parent) \<in> (isa_edges (ensure_initialized T s))\<^sup>*)
        \<and> (B \<in> set (isa_parents (ensure_initialized T s) child)
             \<longrightarrow> cvIsA_result depth T s child B = Some True)
        \<and> (B \<in> set (isa_parents (ensure_initialized T s) child)
             \<and> C \<in> set (isa_parents (ensure_initialized T s) B)
             \<longrightarrow> cvIsA_result depth T s child C = Some True))
   \<and> isa_parents (ensure_initialized T start) child
        = map snd (filter (\<lambda>p. fst p = child) (relationsIsA_tab T))
   \<and> cvIsA_result depth cyclic_tables start 1 2 = None"
proof -
  have 1: "cvIsA_result (Suc d) T s x x = Some True"
    by (simp add: cvIsA_result_def)
  show ?thesis
    using 1 cvIsA_acyclic [of T s rank child depth parent B C]
      isa_parents_start [of T child] cvIsA_cyclic_tables [of depth]
    by blast
qed

theorem cvIsA_recursion_witness:
  "cvIsA_result 2 example_tables start 2 1 = Some True
   \<and> cvIsA_result 2 example_tables start 1 2 = Some False
   \<and> cvIsA_result 1 example_tables start 7 7 = Some True"
proof -
  let ?rank = "\<lambda>c :: CVID. if c = 2 then 1 else (0 :: nat)"
  have r: "\<forall>c q. q \<in> set (isa_parents (ensure_initialized example_tables start) c) \<longrightarrow> ?rank q < ?rank c"
    by (simp add: example_isa_parents)
  have p: "1 \<in> set (isa_parents (ensure_initialized example_tables start) 2)"
    by (simp add: example_isa_parents)
  have r2: "?rank 2 < 2" and r1: "?rank 1 < 2"
    by simp_all
  have a: "cvIsA_result 2 example_tables start 2 1 = Some True"
    using cvIsA_recursion [of 0 example_tables start 7 ?rank 2 2 1 1 1] r r2 p by blast
  have "cvIsA_result 2 example_tables start 1 2 =
      Some (1 = (2 :: CVID)
            \<or> (\<exists>p\<in>set (isa_parents (ensure_initialized example_tables start) 1).
                  cvIsA_result 2 example_tables (ensure_initialized example_tables start) p 2 = Some True))"
    using cvIsA_recursion [of 0 example_tables start 7 ?rank 1 2 2 1 1] r r1 by blast
  then have b: "cvIsA_result 2 example_tables start 1 2 = Some False"
    by (simp add: example_isa_parents)
  have c: "cvIsA_result 1 example_tables start 7 7 = Some True"
    using cvIsA_recursion [of 0 example_tables start 7 ?rank 2 2 1 1 1] by simp
  from a b c show ?thesis by simp
qed

text \<open>
  The claim as it stands fails on a graph with a cycle: in \<open>cyclic_tables\<close> the code 2
  is a direct is-a parent of 1, and the call for 1 and 2 returns at no depth of calls, so
  it is not true.
\<close>

theorem cvIsA_cycle_counterexample:
  "(1, 2) \<in> set (relationsIsA_tab cyclic_tables)
   \<and> 2 \<in> set (isa_parents (ensure_initialized cyclic_tables start) 1)
   \<and> (\<forall>depth. cvIsA_result depth cyclic_tables start 1 2 = None)"
  using cyclic_direct_parent cvIsA_cyclic_tables by (simp add: cyclic_tables_def)

section \<open>What the accessors change\<close>

lemma cvIsA_first_call:
  assumes "child \<noteq> parent" and "cvIsA depth T s child parent = Some (b, s')"
  shows "initialized_flag s'"
proof -
  have "cvIsA depth T (ensure_initialized T s) child parent = Some (b, s')"
    using assms by (simp add: cvIsA_ensure)
  then have "state_extends (ensure_initialized T s) s'"
    by (intro cvIsA_extends(1)) simp_all
  then show ?thesis
    using state_extends_flag [of "ensure_initialized T s" s'] by simp
qed

lemma cvIsA_absent_child:
  assumes "initialized_flag s" and "infoMap_var s child = None" and "child \<noteq> parent"
  shows "cvIsA (Suc depth) T s child parent =
    Some (False, s\<lparr>infoMap_var := (infoMap_var s)(child \<mapsto> default_CVTermInfo)\<rparr>)"
  using assms by (simp add: cvTermInfo_initialized infoMap_index_def default_CVTermInfo_def)

lemma cvIsA_unchanged:
  "initialized_flag s \<Longrightarrow> parents_closed s \<Longrightarrow> child = parent \<or> infoMap_var s child \<noteq> None \<Longrightarrow>
     cvIsA depth T s child parent = Some (b, s') \<Longrightarrow> s' = s"
  "initialized_flag s \<Longrightarrow> parents_closed s \<Longrightarrow> \<forall>q\<in>set its. infoMap_var s q \<noteq> None \<Longrightarrow>
     cvIsA_loop depth T s its parent = Some (b, s') \<Longrightarrow> s' = s"
proof (induction depth T s child parent and depth T s its parent arbitrary: b s' and b s'
    rule: cvIsA_cvIsA_loop.induct)
  case (1 T s child parent)
  then show ?case by simp
next
  case (2 depth T s child parent)
  show ?case
  proof (cases "child = parent")
    case True
    then show ?thesis using "2.prems" by simp
  next
    case False
    then obtain info where i: "infoMap_var s child = Some info"
      using "2.prems"(3) by auto
    then have c: "cvTermInfo T s child = (info, s)"
      using "2.prems"(1) by (simp add: cvTermInfo_initialized infoMap_index_def)
    have par: "CVTermInfo_parentsIsA info = isa_parents s child"
      using i by (simp add: isa_parents_def)
    have all: "\<forall>q\<in>set (CVTermInfo_parentsIsA info). infoMap_var s q \<noteq> None"
      using "2.prems"(2) par by (simp add: parents_closed_def)
    have "cvIsA_loop depth T s (CVTermInfo_parentsIsA info) parent = Some (b, s')"
      using "2.prems"(4) False c by simp
    with "2.IH" [OF False c [symmetric] refl "2.prems"(1,2) all] show ?thesis .
  qed
next
  case (3 depth T s parent)
  then show ?case by simp
next
  case (4 depth T s it its parent)
  from "4.prems"(4) obtain r s1 where c: "cvIsA depth T s it parent = Some (r, s1)"
    by (auto split: option.splits)
  have "it = parent \<or> infoMap_var s it \<noteq> None"
    using "4.prems"(3) by simp
  with "4.IH"(1) [OF "4.prems"(1,2) _ c] have s1: "s1 = s" by simp
  have v: "cvIsA_loop depth T s (it # its) parent =
      (if r then Some (True, s1) else cvIsA_loop depth T s1 its parent)"
    by (simp only: cvIsA_loop.simps c option.case prod.case)
  show ?case
  proof (cases r)
    case True
    then show ?thesis using "4.prems"(4) v s1 by simp
  next
    case False
    then have l: "cvIsA_loop depth T s1 its parent = Some (b, s')"
      using "4.prems"(4) v by simp
    have "\<forall>q\<in>set its. infoMap_var s1 q \<noteq> None"
      using "4.prems"(3) s1 by simp
    with "4.IH"(2) [OF c refl _ _ _ _ l] False "4.prems"(1,2) s1 show ?thesis by simp
  qed
qed

lemma parents_closed_initialize:
  assumes "snd ` set (relationsIsA_tab T) \<subseteq> table_keys T"
  shows "parents_closed (initialize T start)"
  unfolding parents_closed_def
proof (intro allI ballI)
  fix c q assume "q \<in> set (isa_parents (initialize T start) c)"
  then have "q \<in> snd ` set (relationsIsA_tab T)"
    using isa_parents_start [of T c] by (auto simp: ensure_initialized_start)
  then have "q \<in> table_keys T" using assms by auto
  then show "infoMap_var (initialize T start) q \<noteq> None"
    by (simp add: initialize_None)
qed

lemma parents_closed_extends:
  assumes "state_extends s s'" and "parents_closed s"
  shows "parents_closed s'"
  unfolding parents_closed_def
proof (intro allI ballI)
  fix c q assume q: "q \<in> set (isa_parents s' c)"
  have k: "infoMap_var s' k = infoMap_var s k
      \<or> (infoMap_var s k = None \<and> infoMap_var s' k = Some default_CVTermInfo)" for k
    using assms(1) by (simp add: state_extends_def)
  have "q \<in> set (isa_parents s c)"
    using q k [of c] by (auto simp: isa_parents_def default_CVTermInfo_def)
  then have "infoMap_var s q \<noteq> None"
    using assms(2) by (auto simp: parents_closed_def)
  then show "infoMap_var s' q \<noteq> None"
    using k [of q] by auto
qed

text \<open>
  C8, as the code has it. After \<open>cv\<close>, \<open>cvTermInfo\<close> for a code or a string, and
  \<open>cvids\<close>, from any state, the flag is set. \<open>cvIsA\<close> with equal arguments returns true
  and leaves the state as it is, initialized or not; with different arguments a call that
  returns leaves the flag set. Each of these calls is the call from the state that
  \<open>if (!initialized_) initialize();\<close> gives. Once the flag is set: \<open>cvids()\<close> changes nothing;
  \<open>cv(prefix)\<close> and \<open>cvTermInfo(cvid)\<close> insert a default-constructed record under a key
  that is not in the map and change nothing otherwise; \<open>cvTermInfo(id)\<close> changes nothing
  when the string has not exactly one colon or the conversion fails, does what
  \<open>cvTermInfo(CVID_Unknown)\<close> does when the prefix is none of \<open>oboPrefixes_\<close>, and else
  what \<open>cvTermInfo\<close> does for the code; \<open>cvIsA\<close> for a child that is not in the map and
  is not the parent inserts a default-constructed record under the child and returns
  false; \<open>cvIsA\<close> changes nothing when the child is in the map and every direct parent
  has an entry. Every direct parent has one after \<open>initialize\<close> when the second column
  of \<open>relationsIsA_\<close> holds only codes of first columns, and this stays so. In every
  case the state after the call extends the state before it.
\<close>

theorem accessors_frame:
  "initialized_flag (snd (cv T s0 prefix)) \<and> initialized_flag (snd (cvTermInfo T s0 cvid))
   \<and> initialized_flag (snd (cvTermInfo_string ulong_max T s0 ident))
   \<and> initialized_flag (snd (cvids T s0))
   \<and> cvIsA (Suc depth) T s0 child child = Some (True, s0)
   \<and> (child \<noteq> parent \<and> cvIsA depth T s0 child parent = Some (b, s') \<longrightarrow> initialized_flag s')
   \<and> cv T (ensure_initialized T s0) prefix = cv T s0 prefix
   \<and> cvTermInfo T (ensure_initialized T s0) cvid = cvTermInfo T s0 cvid
   \<and> cvTermInfo_string ulong_max T (ensure_initialized T s0) ident
        = cvTermInfo_string ulong_max T s0 ident
   \<and> cvids T (ensure_initialized T s0) = cvids T s0
   \<and> (child \<noteq> parent \<longrightarrow>
        cvIsA depth T (ensure_initialized T s0) child parent = cvIsA depth T s0 child parent)
   \<and> (initialized_flag s \<longrightarrow>
        snd (cvids T s) = s
        \<and> snd (cv T s prefix) =
            (if cvMap_var s prefix = None
             then s\<lparr>cvMap_var := (cvMap_var s)(prefix \<mapsto> default_CV)\<rparr> else s)
        \<and> snd (cvTermInfo T s cvid) =
            (if infoMap_var s cvid = None
             then s\<lparr>infoMap_var := (infoMap_var s)(cvid \<mapsto> default_CVTermInfo)\<rparr> else s)
        \<and> (length (filter (\<lambda>c. c = CHR '':'') ident) \<noteq> 1 \<longrightarrow>
              snd (cvTermInfo_string ulong_max T s ident) = s)
        \<and> (CHR '':'' \<notin> set pre \<and> CHR '':'' \<notin> set cvidStr \<longrightarrow>
              snd (cvTermInfo_string ulong_max T s (pre @ '':'' @ cvidStr)) =
                (if c_str pre \<notin> set (oboPrefixes_tab T) then snd (cvTermInfo T s CVID_Unknown)
                 else (case stringToCVID ulong_max cvidStr of
                         Inl e \<Rightarrow> s
                       | Inr n \<Rightarrow>
                           snd (cvTermInfo T s
                             (to_CVID (of_nat (find_if_StringEquals (oboPrefixes_tab T) (c_str pre))
                                        * enumBlockSize + of_nat n))))))
        \<and> state_extends s (snd (cvTermInfo_string ulong_max T s ident))
        \<and> (infoMap_var s child = None \<and> child \<noteq> parent \<longrightarrow>
              cvIsA (Suc depth) T s child parent =
                Some (False, s\<lparr>infoMap_var := (infoMap_var s)(child \<mapsto> default_CVTermInfo)\<rparr>))
        \<and> (parents_closed s \<and> (child = parent \<or> infoMap_var s child \<noteq> None)
             \<and> cvIsA depth T s child parent = Some (b, s') \<longrightarrow> s' = s)
        \<and> (cvIsA depth T s child parent = Some (b, s') \<longrightarrow> state_extends s s')
        \<and> (parents_closed s \<and> state_extends s s' \<longrightarrow> parents_closed s'))
   \<and> (snd ` set (relationsIsA_tab T) \<subseteq> table_keys T \<longrightarrow> parents_closed (initialize T start))"
proof -
  have 1: "initialized_flag (snd (cv T s0 prefix))"
    using state_extends_flag [OF cvMap_index_extends, of "ensure_initialized T s0" prefix]
    by (simp add: cv_def)
  have 2: "initialized_flag (snd (cvTermInfo T s0 cvid))"
    using state_extends_flag [OF infoMap_index_extends, of "ensure_initialized T s0" cvid]
    by (simp add: cvTermInfo_def)
  have c: "cvTermInfo_string ulong_max T (ensure_initialized T s0) ident
      = cvTermInfo_string ulong_max T s0 ident"
    by (simp add: cvTermInfo_string_def)
  have 3: "initialized_flag (snd (cvTermInfo_string ulong_max T s0 ident))"
    using state_extends_flag [OF cvTermInfo_string_extends, of "ensure_initialized T s0" ulong_max T ident]
    by (simp add: c)
  have 4: "initialized_flag (snd (cvids T s0))"
    by (simp add: cvids_def Let_def)
  have r1: "cvIsA (Suc depth) T s0 child child = Some (True, s0)"
    by simp
  have r2: "initialized_flag s'" if "child \<noteq> parent" "cvIsA depth T s0 child parent = Some (b, s')"
    using that by (rule cvIsA_first_call)
  have e1: "cv T (ensure_initialized T s0) prefix = cv T s0 prefix"
    by (simp add: cv_def)
  have e2: "cvTermInfo T (ensure_initialized T s0) cvid = cvTermInfo T s0 cvid"
    by (rule cvTermInfo_ensure)
  have e4: "cvids T (ensure_initialized T s0) = cvids T s0"
    by (simp add: cvids_def)
  have 5: "snd (cvids T s) = s" if "initialized_flag s"
    using that by (simp add: cvids_def Let_def)
  have 6: "snd (cv T s prefix) =
            (if cvMap_var s prefix = None
             then s\<lparr>cvMap_var := (cvMap_var s)(prefix \<mapsto> default_CV)\<rparr> else s)"
    if "initialized_flag s"
    using that by (simp add: cv_def cvMap_index_snd)
  have 7: "snd (cvTermInfo T s cvid) =
            (if infoMap_var s cvid = None
             then s\<lparr>infoMap_var := (infoMap_var s)(cvid \<mapsto> default_CVTermInfo)\<rparr> else s)"
    if "initialized_flag s"
    using that by (simp add: cvTermInfo_def infoMap_index_snd)
  have 8: "snd (cvTermInfo_string ulong_max T s ident) = s"
    if "initialized_flag s" "length (filter (\<lambda>c. c = CHR '':'') ident) \<noteq> 1"
    using that cvTermInfo_string_format [of ident ulong_max T s] by simp
  have 9: "snd (cvTermInfo_string ulong_max T s (pre @ '':'' @ cvidStr)) =
                (if c_str pre \<notin> set (oboPrefixes_tab T) then snd (cvTermInfo T s CVID_Unknown)
                 else (case stringToCVID ulong_max cvidStr of
                         Inl e \<Rightarrow> s
                       | Inr n \<Rightarrow>
                           snd (cvTermInfo T s
                             (to_CVID (of_nat (find_if_StringEquals (oboPrefixes_tab T) (c_str pre))
                                        * enumBlockSize + of_nat n)))))"
    if "initialized_flag s" "CHR '':'' \<notin> set pre" "CHR '':'' \<notin> set cvidStr"
  proof (cases "c_str pre \<in> set (oboPrefixes_tab T)")
    case True
    show ?thesis
      unfolding cvTermInfo_string_matched [OF that(2,3) True]
      using True that(1) by (simp split: sum.splits)
  next
    case False
    show ?thesis
      unfolding cvTermInfo_string_unmatched [OF that(2,3) False]
      using False by simp
  qed
  have 10: "cvIsA (Suc depth) T s child parent =
                Some (False, s\<lparr>infoMap_var := (infoMap_var s)(child \<mapsto> default_CVTermInfo)\<rparr>)"
    if "initialized_flag s" "infoMap_var s child = None" "child \<noteq> parent"
    using that by (rule cvIsA_absent_child)
  have 11: "s' = s"
    if "initialized_flag s" "parents_closed s" "child = parent \<or> infoMap_var s child \<noteq> None"
      "cvIsA depth T s child parent = Some (b, s')"
    using that by (rule cvIsA_unchanged(1))
  have 12: "parents_closed s'" if "parents_closed s" "state_extends s s'"
    using that(2,1) by (rule parents_closed_extends)
  have 13: "parents_closed (initialize T start)" if "snd ` set (relationsIsA_tab T) \<subseteq> table_keys T"
    using that by (rule parents_closed_initialize)
  show ?thesis
    by (intro conjI impI; (elim conjE)?;
        (rule 1 2 3 4 r1 e1 e2 c e4 cvTermInfo_string_extends
         | (erule r2 5 6 7 8 9 10 11 12 13 cvIsA_ensure cvIsA_extends(1); assumption?)))
qed

lemma example_parents_in_keys:
  "snd ` set (relationsIsA_tab example_tables) \<subseteq> table_keys example_tables"
  by (simp add: example_tables_def table_keys_def)

lemma example_cvIsA_2_1:
  "cvIsA 2 example_tables (initialize example_tables start) 2 1
     = Some (True, initialize example_tables start)"
  by (simp add: numeral_2_eq_2 cvTermInfo_def infoMap_index_def example_infoMap)

lemma example_stringToCVID_7: "7 \<le> ulong_max \<Longrightarrow> stringToCVID ulong_max ''7'' = Inr 7"
  by (simp add: stringToCVID_eq strtoul_digits_def strtoul_sign_def c_str_def isspace_def
      isdigit_def decimal_def)

theorem accessors_frame_witness:
  "initialized_flag (snd (cvids example_tables start))
   \<and> cvIsA 1 example_tables start 7 7 = Some (True, start)
   \<and> snd (cvTermInfo example_tables (initialize example_tables start) 1) = initialize example_tables start
   \<and> snd (cv example_tables (initialize example_tables start) ''XX'')
       = (initialize example_tables start)
           \<lparr>cvMap_var := (cvMap_var (initialize example_tables start))(''XX'' \<mapsto> default_CV)\<rparr>
   \<and> snd (cvTermInfo_string (2 ^ 64 - 1) example_tables (initialize example_tables start) ''MS:7'')
       = (initialize example_tables start)
           \<lparr>infoMap_var := (infoMap_var (initialize example_tables start))(7 \<mapsto> default_CVTermInfo)\<rparr>
   \<and> cvIsA 1 example_tables (initialize example_tables start) 7 1
       = Some (False, (initialize example_tables start)
           \<lparr>infoMap_var := (infoMap_var (initialize example_tables start))(7 \<mapsto> default_CVTermInfo)\<rparr>)
   \<and> parents_closed (initialize example_tables start)
   \<and> cvIsA 2 example_tables (initialize example_tables start) 2 1
       = Some (True, initialize example_tables start)
   \<and> snd (cvids example_tables start) = initialize example_tables start"
proof -
  let ?s = "initialize example_tables start"
  note t = accessors_frame [where T = example_tables and ?s0.0 = start and s = ?s
      and prefix = "''XX''" and cvid = 1 and ulong_max = "2 ^ 64 - 1" and ident = "''MS:7''"
      and pre = "''MS''" and cvidStr = "''7''" and depth = 0 and child = 7 and parent = 1
      and b = False and s' = ?s]
  have a: "initialized_flag (snd (cvids example_tables start))"
    using t by blast
  have b: "cvIsA 1 example_tables start 7 7 = Some (True, start)"
    using accessors_frame [where T = example_tables and ?s0.0 = start and depth = 0 and child = 7]
    by simp
  have f: "initialized_flag ?s"
    by simp
  have c: "snd (cvTermInfo example_tables ?s 1) = ?s"
    using t f by (simp add: example_infoMap)
  have d: "snd (cv example_tables ?s ''XX'') = ?s\<lparr>cvMap_var := (cvMap_var ?s)(''XX'' \<mapsto> default_CV)\<rparr>"
    using t f by (simp add: example_cvMap_XX)
  have "snd (cvTermInfo_string (2 ^ 64 - 1) example_tables ?s (''MS'' @ '':'' @ ''7'')) =
           (if c_str ''MS'' \<notin> set (oboPrefixes_tab example_tables)
            then snd (cvTermInfo example_tables ?s CVID_Unknown)
            else (case stringToCVID (2 ^ 64 - 1) ''7'' of
                    Inl e \<Rightarrow> ?s
                  | Inr n \<Rightarrow>
                      snd (cvTermInfo example_tables ?s
                        (to_CVID (of_nat (find_if_StringEquals (oboPrefixes_tab example_tables) (c_str ''MS''))
                                   * enumBlockSize + of_nat n))))) "
    using t f by simp
  then have e: "snd (cvTermInfo_string (2 ^ 64 - 1) example_tables ?s ''MS:7'')
       = ?s\<lparr>infoMap_var := (infoMap_var ?s)(7 \<mapsto> default_CVTermInfo)\<rparr>"
    by (simp add: example_matched example_stringToCVID_7 example_MS_index to_CVID_def
        cvTermInfo_def infoMap_index_def example_infoMap)
  have g: "cvIsA 1 example_tables ?s 7 1
       = Some (False, ?s\<lparr>infoMap_var := (infoMap_var ?s)(7 \<mapsto> default_CVTermInfo)\<rparr>)"
    using t f by (simp add: example_infoMap)
  have h: "parents_closed ?s"
    using t example_parents_in_keys by blast
  have i: "cvIsA 2 example_tables ?s 2 1 = Some (True, ?s)"
    using accessors_frame [where T = example_tables and s = ?s and depth = 2 and child = 2
        and parent = 1 and b = True and s' = ?s] f h example_cvIsA_2_1
    by (simp add: example_infoMap)
  have "snd (cvids example_tables ?s) = ?s"
    using t f by blast
  moreover have "cvids example_tables (ensure_initialized example_tables start) = cvids example_tables start"
    using accessors_frame [where T = example_tables and ?s0.0 = start and depth = 0 and child = 7]
    by blast
  ultimately have j: "snd (cvids example_tables start) = ?s"
    by (simp add: ensure_initialized_start)
  from a b c d e g h i j show ?thesis by simp
qed

text \<open>
  The claim as it stands fails: after initialization, \<open>cv\<close> with the unknown prefix XX
  adds an entry to \<open>cvMap_\<close>, and \<open>cvTermInfo\<close> with the unknown code 7 adds an entry
  to \<open>infoMap_\<close>.
\<close>

theorem accessors_insert_counterexample:
  "initialized_flag (initialize example_tables start)
   \<and> cvMap_var (initialize example_tables start) ''XX'' = None
   \<and> cvMap_var (snd (cv example_tables (initialize example_tables start) ''XX'')) ''XX'' = Some default_CV
   \<and> infoMap_var (initialize example_tables start) 7 = None
   \<and> infoMap_var (snd (cvTermInfo example_tables (initialize example_tables start) 7)) 7
       = Some default_CVTermInfo"
  by (simp add: cv_def cvTermInfo_def cvMap_index_def infoMap_index_def example_cvMap_XX example_infoMap)

end
